theory Spec2Isabelle
  imports Main "HOL-Library.AList" "HOL-Library.Sublist"
begin

section \<open>JavaScript values\<close>

text \<open>
  The values the plugin manager handles: what \<^verbatim>\<open>JSON.parse\<close> returns for a manifest,
  what a web-request listener returns, the arguments of \<^verbatim>\<open>setEnabled\<close> and
  \<^verbatim>\<open>reload\<close>. A finite number is only ever tested for truthiness and with
  \<^verbatim>\<open>typeof\<close>, compared and written back as it is, so an integer stands for it;
  \<open>VInfinity\<close> is \<^verbatim>\<open>Infinity\<close> (\<open>False\<close>) or \<^verbatim>\<open>-Infinity\<close> (\<open>True\<close>), which
  \<^verbatim>\<open>JSON.parse\<close> returns for a literal too large for a double and \<^verbatim>\<open>JSON.stringify\<close>
  writes as \<^verbatim>\<open>null\<close>. An object is the list of its own named properties. A function
  value is opaque (a handle).
\<close>

datatype jsval =
    VUndefined
  | VNull
  | VBool bool
  | VNum int
  | VInfinity bool
  | VStr string
  | VArr "jsval list"
  | VObj "(string \<times> jsval) list"
  | VFunction nat

datatype jstype = TUndefined | TObject | TBoolean | TNumber | TString | TFunction

fun typeof :: "jsval \<Rightarrow> jstype" where
  "typeof VUndefined = TUndefined"
| "typeof VNull = TObject"
| "typeof (VBool b) = TBoolean"
| "typeof (VNum n) = TNumber"
| "typeof (VInfinity b) = TNumber"
| "typeof (VStr s) = TString"
| "typeof (VArr xs) = TObject"
| "typeof (VObj kvs) = TObject"
| "typeof (VFunction f) = TFunction"

text \<open>\<^verbatim>\<open>!!v\<close>, the test of \<^verbatim>\<open>if (v)\<close>, \<^verbatim>\<open>v && ...\<close>, \<^verbatim>\<open>v || ...\<close> and \<^verbatim>\<open>filter(Boolean)\<close>.\<close>

fun truthy :: "jsval \<Rightarrow> bool" where
  "truthy VUndefined = False"
| "truthy VNull = False"
| "truthy (VBool b) = b"
| "truthy (VNum n) = (n \<noteq> 0)"
| "truthy (VInfinity b) = True"
| "truthy (VStr s) = (s \<noteq> [])"
| "truthy (VArr xs) = True"
| "truthy (VObj kvs) = True"
| "truthy (VFunction f) = True"

text \<open>\<^verbatim>\<open>v == null\<close>: true of \<^verbatim>\<open>null\<close> and \<^verbatim>\<open>undefined\<close> only.\<close>

fun nullish :: "jsval \<Rightarrow> bool" where
  "nullish VUndefined = True"
| "nullish VNull = True"
| "nullish v = False"

text \<open>
  \<^verbatim>\<open>v.k\<close> for a value that is neither \<^verbatim>\<open>null\<close> nor \<^verbatim>\<open>undefined\<close> (every read below
  is guarded, or made after the guard has been passed) and a key \<open>k\<close> among the manifest
  field names, \<^verbatim>\<open>name\<close>, \<^verbatim>\<open>id\<close> and \<^verbatim>\<open>html\<close>: none of these is inherited by a
  string, number, boolean or array, so only an object can answer. Function values never
  reach a property read here (manifests come from \<^verbatim>\<open>JSON.parse\<close>).
\<close>

fun get_prop :: "jsval \<Rightarrow> string \<Rightarrow> jsval" where
  "get_prop (VObj kvs) k = (case map_of kvs k of Some v \<Rightarrow> v | None \<Rightarrow> VUndefined)"
| "get_prop v k = VUndefined"

text \<open>\<^verbatim>\<open>a || b\<close> and \<^verbatim>\<open>a && b\<close> on values.\<close>

definition js_or :: "jsval \<Rightarrow> jsval \<Rightarrow> jsval" where
  "js_or a b = (if truthy a then a else b)"

definition js_and :: "jsval \<Rightarrow> jsval \<Rightarrow> jsval" where
  "js_and a b = (if truthy a then b else a)"

text \<open>
  \<^verbatim>\<open>a === b\<close>. Primitives compare by value. Objects, arrays and functions compare by
  reference; the two sides below are always a value stored in a record and a value
  handed in by a caller, which are never the same reference.
\<close>

fun strict_eq :: "jsval \<Rightarrow> jsval \<Rightarrow> bool" where
  "strict_eq VUndefined VUndefined = True"
| "strict_eq VNull VNull = True"
| "strict_eq (VBool a) (VBool b) = (a = b)"
| "strict_eq (VNum a) (VNum b) = (a = b)"
| "strict_eq (VInfinity a) (VInfinity b) = (a = b)"
| "strict_eq (VStr a) (VStr b) = (a = b)"
| "strict_eq a b = False"

text \<open>
  What is thrown: the TypeError of the runtime, the errors that \<^verbatim>\<open>require\<close> and
  \<^verbatim>\<open>setEnabled\<close> raise, and \<open>Thrown n\<close>, a value thrown by the code of a plugin, which
  \<^verbatim>\<open>console.error\<close> prints as it is.
\<close>

datatype error =
    TypeError
  | ModuleNotFound
  | PluginNotFound jsval
  | ManifestReadFailed
  | WriteFailed
  | Thrown nat

text \<open>
  Whether converting a value to a string succeeds, as a template literal
  \<^verbatim>\<open>`${v}`\<close> and the concatenation \<^verbatim>\<open>'...' + v\<close> do it. A primitive always converts. An
  object converts through an inherited \<^verbatim>\<open>toString\<close>, unless it has an own property of
  that name: in a parsed value that property is never a function, \<^verbatim>\<open>valueOf\<close> gives no
  primitive either, and the conversion throws a TypeError. An array joins its elements,
  taking \<^verbatim>\<open>null\<close> and \<^verbatim>\<open>undefined\<close> as empty and converting the others.
\<close>

fun to_string_ok :: "jsval \<Rightarrow> bool" where
  "to_string_ok (VArr xs) = list_all (\<lambda>x. nullish x \<or> to_string_ok x) xs"
| "to_string_ok (VObj kvs) = (map_of kvs ''toString'' = None)"
| "to_string_ok v = True"



section \<open>Manifest normalisation\<close>

type_synonym manifest = "(string \<times> jsval) list"

text \<open>The named own properties of a parsed manifest; an array has none of its own.\<close>

fun own_props :: "jsval \<Rightarrow> manifest" where
  "own_props (VObj kvs) = kvs"
| "own_props v = []"

definition manifest_get :: "manifest \<Rightarrow> string \<Rightarrow> jsval" where
  "manifest_get m k = get_prop (VObj m) k"

text \<open>
  \<^verbatim>\<open>loadAll\<close>, lines 51-54: the value \<^verbatim>\<open>manifest.categories\<close> holds after the three
  branches (a value no branch takes is left as it is).
\<close>

definition normalize_categories :: "jsval \<Rightarrow> jsval" where
  "normalize_categories cats =
     (if typeof cats = TString then VArr [cats]
      else (case cats of
              VArr xs \<Rightarrow> VArr (filter (\<lambda>x. typeof x = TString) xs)
            | _ \<Rightarrow> if nullish cats then VArr [] else cats))"

text \<open>\<^verbatim>\<open>loadAll\<close>, line 58: the filter predicate on the elements of \<^verbatim>\<open>authors\<close>.\<close>

definition author_ok :: "jsval \<Rightarrow> bool" where
  "author_ok x =
     (typeof x = TString
      \<or> (truthy x \<and> typeof x = TObject \<and> typeof (get_prop x ''name'') = TString))"

text \<open>\<^verbatim>\<open>loadAll\<close>, lines 56-59: the value \<^verbatim>\<open>manifest.authors\<close> holds afterwards.\<close>

definition normalize_authors :: "jsval \<Rightarrow> jsval" where
  "normalize_authors au =
     (if typeof au = TString then VArr [au]
      else (case au of
              VArr xs \<Rightarrow> VArr (filter author_ok xs)
            | _ \<Rightarrow> if nullish au then VArr [] else au))"

text \<open>
  \<^verbatim>\<open>loadAll\<close>, lines 48-60: the body of the \<^verbatim>\<open>try\<close>; \<open>None\<close> is the \<^verbatim>\<open>catch\<close>
  (\<^verbatim>\<open>continue\<close>). The argument is what \<^verbatim>\<open>JSON.parse(fs.readFileSync(...))\<close> gave,
  \<open>None\<close> when either threw. Reading \<^verbatim>\<open>manifest.categories\<close> throws on \<^verbatim>\<open>null\<close>. On
  a string, number or boolean manifest the read gives \<^verbatim>\<open>undefined\<close>, the third branch
  assigns, and the assignment to a primitive throws: a class body is strict code. (Only
  objects, arrays and functions take the assignment; \<^verbatim>\<open>JSON.parse\<close> returns no function.)
\<close>

definition parse_and_normalize :: "jsval option \<Rightarrow> manifest option" where
  "parse_and_normalize r =
     (case r of
        None \<Rightarrow> None
      | Some v \<Rightarrow>
          if nullish v then None
          else if typeof v \<noteq> TObject \<and> typeof v \<noteq> TFunction then None
          else
            (let m = own_props v;
                 m1 = AList.update ''categories'' (normalize_categories (manifest_get m ''categories'')) m;
                 m2 = AList.update ''authors'' (normalize_authors (manifest_get m1 ''authors'')) m1
             in Some m2))"


text \<open>\<^verbatim>\<open>discoverPlugins\<close>, line 229.\<close>

definition discover_categories :: "jsval \<Rightarrow> jsval list" where
  "discover_categories cats =
     (if typeof cats = TString then [cats]
      else (case cats of
              VArr xs \<Rightarrow> filter (\<lambda>x. typeof x = TString) xs
            | _ \<Rightarrow> []))"

text \<open>\<^verbatim>\<open>discoverPlugins\<close>, lines 231-235.\<close>

definition discover_authors :: "jsval \<Rightarrow> jsval list" where
  "discover_authors au =
     (if typeof au = TString then [au]
      else (case au of
              VArr xs \<Rightarrow>
                filter truthy
                  (map (\<lambda>x. if typeof x = TString then x
                             else js_or (js_and x (get_prop x ''name'')) VNull) xs)
            | _ \<Rightarrow> []))"

section \<open>Renderer preloads\<close>

text \<open>
  \<^verbatim>\<open>Array.from(new Set(xs))\<close>: a set keeps the first occurrence of each value, in
  insertion order.
\<close>

fun set_insert :: "'a list \<Rightarrow> 'a \<Rightarrow> 'a list" where
  "set_insert acc x = (if x \<in> set acc then acc else acc @ [x])"

definition array_from_set :: "'a list \<Rightarrow> 'a list" where
  "array_from_set xs = foldl set_insert [] xs"

section \<open>Plugins, modules and the manager's state\<close>

text \<open>What one call of a plugin's listener does: it returns a value or throws.\<close>

datatype outcome = Returns jsval | Throws error

type_synonym listener = "jsval \<Rightarrow> outcome"

text \<open>
  The calls on the context object of \<^verbatim>\<open>_buildContext\<close> that write to the manager's
  collections (lines 127-143). A context-menu contributor is an opaque function handle.
\<close>

datatype ctx_call =
    RegisterWebRequest jsval listener
  | ContributeContextMenu nat
  | RegisterRendererPage jsval

text \<open>
  The code of an activation entry point, as far as the manager can see it: it returns,
  throws, or makes a context call and goes on, one way when the call returns and another
  when the call itself raises (the plugin may catch that, or let it through as a
  \<open>Throw\<close>). An entry point is taken to end, after finitely many context calls; one that
  never returns is not described.
\<close>

datatype script =
    Return
  | Throw error
  | Call ctx_call script script

text \<open>
  What \<^verbatim>\<open>require(mainPath)\<close> returns: \<open>m_truthy\<close> is \<^verbatim>\<open>!!mod\<close>, \<open>m_activate\<close> the code of
  \<^verbatim>\<open>mod.activate\<close> when that is a function, \<open>m_callable\<close> the code of \<^verbatim>\<open>mod\<close> when it is
  itself a function.
\<close>

datatype module = Module (m_truthy: bool) (m_activate: "script option") (m_callable: "script option")

text \<open>
  The record of line 63. \<open>rec_mod = None\<close> is the \<^verbatim>\<open>mod: null\<close> the record starts with;
  \<open>Some m\<close> is what line 70 stored, whatever the module exports (\<open>m\<close> may be falsy).
\<close>

record plugin =
  rec_id :: jsval
  rec_dir :: string
  rec_manifest :: manifest
  rec_enabled :: bool
  rec_mod :: "module option"
  rec_mainPath :: "string option"

record page =
  pg_id :: jsval
  pg_file :: jsval
  pg_fileUrl :: "string option"
  pg_pluginId :: jsval

datatype log =
    FailedToLoadMain jsval error
  | ErrorActivating jsval error
  | RegisteredPage jsval jsval "string option"
  | WebRequestHandlerError error
  | FailedToAttach error

text \<open>
  The fields of the manager (constructor, lines 8-18; the event bus is left out), and of
  the process around it: Node's \<^verbatim>\<open>require.cache\<close>, keyed by resolved file name, and the
  console. \<open>activated\<close> is a trace: the records whose entry point \<^verbatim>\<open>loadAll\<close> has called
  (lines 93 and 96), in call order.
\<close>

record world =
  plugins :: "plugin list"
  rendererPreloads :: "string list"
  rendererPages :: "page list"
  webRequestHandlers :: "(jsval \<times> listener) list"
  contextMenuContribs :: "nat list"
  requireCache :: "(string \<times> module) list"
  console :: "log list"
  activated :: "plugin list"

text \<open>
  What the manager reads from outside: Electron's two paths, \<^verbatim>\<open>path.join\<close> on strings,
  the directory listings (\<open>None\<close>: \<^verbatim>\<open>readdirSync\<close> throws; an entry is its name and
  \<^verbatim>\<open>isDirectory()\<close>), the parsed content of a manifest file (\<open>None\<close>: reading or parsing
  throws), \<^verbatim>\<open>fs.existsSync\<close>, \<^verbatim>\<open>require.resolve\<close> (\<open>None\<close>: throws), what running a
  module file gives when it is not cached, \<^verbatim>\<open>pathToFileURL(p).href\<close> (\<open>None\<close>: throws), and
  whether \<^verbatim>\<open>fs.promises.writeFile\<close> to a path succeeds.
\<close>

record env =
  appPath :: string
  userData :: string
  pathJoin :: "string \<Rightarrow> string \<Rightarrow> string"
  readdirSync :: "string \<Rightarrow> (string \<times> bool) list option"
  readManifest :: "string \<Rightarrow> jsval option"
  existsSync :: "string \<Rightarrow> bool"
  resolve :: "string \<Rightarrow> string option"
  loadFile :: "string \<Rightarrow> error + module"
  pathToFileURL :: "string \<Rightarrow> string option"
  writable :: "string \<Rightarrow> bool"

definition constructor :: world where
  "constructor =
     \<lparr>plugins = [], rendererPreloads = [], rendererPages = [], webRequestHandlers = [],
      contextMenuContribs = [], requireCache = [], console = [], activated = []\<rparr>"

definition getPluginDirs :: "env \<Rightarrow> string list" where
  "getPluginDirs env =
     [pathJoin env (appPath env) ''plugins'', pathJoin env (userData env) ''plugins'']"

section \<open>Loading\<close>

text \<open>
  Node's \<^verbatim>\<open>require\<close>: resolve the path; a cached module is returned as it is; otherwise
  the file is run, and cached only when it ran to the end.
\<close>

definition require :: "env \<Rightarrow> string \<Rightarrow> (string \<times> module) list \<Rightarrow> (error + module) \<times> (string \<times> module) list" where
  "require env p cache =
     (case resolve env p of
        None \<Rightarrow> (Inl ModuleNotFound, cache)
      | Some k \<Rightarrow>
          (case map_of cache k of
             Some m \<Rightarrow> (Inr m, cache)
           | None \<Rightarrow>
               (case loadFile env k of
                  Inl e \<Rightarrow> (Inl e, cache)
                | Inr m \<Rightarrow> (Inr m, cache @ [(k, m)]))))"

text \<open>Lines 61-63.\<close>

definition make_record :: "string \<Rightarrow> string \<Rightarrow> manifest \<Rightarrow> plugin" where
  "make_record dir name m =
     \<lparr>rec_id = js_or (manifest_get m ''id'') (VStr name),
      rec_dir = dir,
      rec_manifest = m,
      rec_enabled = (manifest_get m ''enabled'' \<noteq> VBool False),
      rec_mod = None,
      rec_mainPath = None\<rparr>"

text \<open>
  Lines 66-75. \<^verbatim>\<open>path.join\<close> throws a TypeError on an argument that is not a string, and
  line 67 stands outside the \<^verbatim>\<open>try\<close>: the error leaves \<^verbatim>\<open>loadAll\<close>. So does the
  TypeError of line 73, in the \<^verbatim>\<open>catch\<close>, when the id interpolated into the log line
  does not convert to a string.
\<close>

definition load_main :: "env \<Rightarrow> plugin \<Rightarrow> world \<Rightarrow> plugin \<times> world \<times> error option" where
  "load_main env record w =
     (let main = manifest_get (rec_manifest record) ''main'' in
      if truthy main then
        (case main of
           VStr s \<Rightarrow>
             (let mainPath = pathJoin env (rec_dir record) s in
              case require env mainPath (requireCache w) of
                (Inr m, c) \<Rightarrow>
                  (record\<lparr>rec_mod := Some m, rec_mainPath := Some mainPath\<rparr>,
                   w\<lparr>requireCache := c\<rparr>, None)
              | (Inl e, c) \<Rightarrow>
                  if to_string_ok (rec_id record) then
                    (record,
                     w\<lparr>requireCache := c,
                       console := console w @ [FailedToLoadMain (rec_id record) e]\<rparr>, None)
                  else (record, w\<lparr>requireCache := c\<rparr>, Some TypeError))
         | _ \<Rightarrow> (record, w, Some TypeError))
      else (record, w, None))"

text \<open>Lines 77-82; line 78 stands outside the \<^verbatim>\<open>try\<close> as well.\<close>

definition collect_preload :: "env \<Rightarrow> plugin \<Rightarrow> world \<Rightarrow> world \<times> error option" where
  "collect_preload env record w =
     (let rendererPreload = manifest_get (rec_manifest record) ''rendererPreload'' in
      if truthy rendererPreload then
        (case rendererPreload of
           VStr s \<Rightarrow>
             (let rp = pathJoin env (rec_dir record) s in
              if existsSync env rp
              then (w\<lparr>rendererPreloads := rendererPreloads w @ [rp]\<rparr>, None)
              else (w, None))
         | _ \<Rightarrow> (w, Some TypeError))
      else (w, None))"

text \<open>Lines 43-85: the body of the inner loop for one directory entry.\<close>

definition load_entry :: "env \<Rightarrow> string \<Rightarrow> string \<times> bool \<Rightarrow> world \<Rightarrow> world \<times> error option" where
  "load_entry env root ent w =
     (if \<not> snd ent then (w, None)
      else
        (let dir = pathJoin env root (fst ent);
             manifestPath = pathJoin env dir ''plugin.json''
         in case parse_and_normalize (readManifest env manifestPath) of
              None \<Rightarrow> (w, None)
            | Some manifest \<Rightarrow>
                (let record = make_record dir (fst ent) manifest in
                 if rec_enabled record then
                   (case load_main env record w of
                      (record1, w1, Some e) \<Rightarrow> (w1, Some e)
                    | (record1, w1, None) \<Rightarrow>
                        (case collect_preload env record1 w1 of
                           (w2, Some e) \<Rightarrow> (w2, Some e)
                         | (w2, None) \<Rightarrow> (w2\<lparr>plugins := plugins w2 @ [record1]\<rparr>, None)))
                 else (w\<lparr>plugins := plugins w @ [record]\<rparr>, None))))"

fun load_entries :: "env \<Rightarrow> string \<Rightarrow> (string \<times> bool) list \<Rightarrow> world \<Rightarrow> world \<times> error option" where
  "load_entries env root [] w = (w, None)"
| "load_entries env root (ent # ents) w =
     (case load_entry env root ent w of
        (w1, Some e) \<Rightarrow> (w1, Some e)
      | (w1, None) \<Rightarrow> load_entries env root ents w1)"

text \<open>Lines 40-86: the outer loop over the search roots.\<close>

fun load_roots :: "env \<Rightarrow> string list \<Rightarrow> world \<Rightarrow> world \<times> error option" where
  "load_roots env [] w = (w, None)"
| "load_roots env (root # roots) w =
     (case readdirSync env root of
        None \<Rightarrow> load_roots env roots w
      | Some entries \<Rightarrow>
          (case load_entries env root entries w of
             (w1, Some e) \<Rightarrow> (w1, Some e)
           | (w1, None) \<Rightarrow> load_roots env roots w1))"

section \<open>Activation\<close>

text \<open>
  \<^verbatim>\<open>registerRendererPage\<close>, lines 134-143. The second component tells whether the call
  raises into the plugin's code. Destructuring \<^verbatim>\<open>{ id, html }\<close> from \<^verbatim>\<open>undefined\<close> or
  \<^verbatim>\<open>null\<close> throws before the body. After the push, line 141 calls \<^verbatim>\<open>manager.log\<close>, which
  the class does not define: the TypeError is caught on line 142, whose handler calls
  \<^verbatim>\<open>manager.error\<close>, not defined either, and that TypeError leaves the function.
\<close>

definition registerRendererPage :: "env \<Rightarrow> plugin \<Rightarrow> jsval \<Rightarrow> world \<Rightarrow> world \<times> bool" where
  "registerRendererPage env plugin arg w =
     (if nullish arg then (w, True)
      else
        (let page_id = get_prop arg ''id''; html = get_prop arg ''html'' in
         if \<not> truthy page_id \<or> \<not> truthy html then (w, False)
         else
           (let fileUrl = (case html of VStr s \<Rightarrow> pathToFileURL env s | _ \<Rightarrow> None) in
            (w\<lparr>rendererPages := rendererPages w @
                  [\<lparr>pg_id = page_id, pg_file = html, pg_fileUrl = fileUrl, pg_pluginId = rec_id plugin\<rparr>],
                console := console w @ [RegisteredPage page_id html fileUrl]\<rparr>,
             True))))"

text \<open>Lines 127-143: one context call; the pushes of lines 128 and 131 never throw.\<close>

fun do_call :: "env \<Rightarrow> plugin \<Rightarrow> ctx_call \<Rightarrow> world \<Rightarrow> world \<times> bool" where
  "do_call env plugin (RegisterWebRequest flt listener) w =
     (w\<lparr>webRequestHandlers := webRequestHandlers w @ [(flt, listener)]\<rparr>, False)"
| "do_call env plugin (ContributeContextMenu contribFn) w =
     (w\<lparr>contextMenuContribs := contextMenuContribs w @ [contribFn]\<rparr>, False)"
| "do_call env plugin (RegisterRendererPage arg) w = registerRendererPage env plugin arg w"

fun run_script :: "env \<Rightarrow> plugin \<Rightarrow> script \<Rightarrow> world \<Rightarrow> world \<times> error option" where
  "run_script env plugin Return w = (w, None)"
| "run_script env plugin (Throw e) w = (w, Some e)"
| "run_script env plugin (Call c ok ex) w =
     (case do_call env plugin c w of
        (w1, raised) \<Rightarrow>
          if raised then run_script env plugin ex w1 else run_script env plugin ok w1)"

text \<open>
  Lines 92-99, for a record whose id converts to a string: the call of one entry point
  inside the \<^verbatim>\<open>try\<close>, and the \<^verbatim>\<open>catch\<close> that logs what it throws.
\<close>

definition call_entry :: "env \<Rightarrow> plugin \<Rightarrow> script \<Rightarrow> world \<Rightarrow> world" where
  "call_entry env p sc w =
     (case run_script env p sc (w\<lparr>activated := activated w @ [p]\<rparr>) of
        (w1, None) \<Rightarrow> w1
      | (w1, Some e) \<Rightarrow> w1\<lparr>console := console w1 @ [ErrorActivating (rec_id p) e]\<rparr>)"

text \<open>
  Lines 89, 92 and 94: the entry point the loop calls for a record, if any: none for a
  disabled record or a falsy \<^verbatim>\<open>mod\<close>, else \<^verbatim>\<open>mod.activate\<close> when it is a function, else
  \<^verbatim>\<open>mod\<close> when it is one.
\<close>

definition entry_point :: "plugin \<Rightarrow> script option" where
  "entry_point p =
     (case rec_mod p of
        None \<Rightarrow> None
      | Some m \<Rightarrow>
          if \<not> rec_enabled p \<or> \<not> m_truthy m then None
          else
            (case m_activate m of
               Some sc \<Rightarrow> Some sc
             | None \<Rightarrow> m_callable m))"

text \<open>
  Lines 89-100: the body of the activation loop for one record. A disabled record or a
  falsy \<^verbatim>\<open>mod\<close> is skipped. Otherwise line 91 builds the context first, and
  \<^verbatim>\<open>_buildContext\<close> interpolates the id into the log prefix (line 106): for an id that does
  not convert to a string this throws inside the \<^verbatim>\<open>try\<close>, before any entry point is
  called, and the \<^verbatim>\<open>catch\<close> interpolates the id again (line 99), outside any \<^verbatim>\<open>try\<close>:
  the TypeError leaves \<^verbatim>\<open>loadAll\<close>.
\<close>

definition activate :: "env \<Rightarrow> plugin \<Rightarrow> world \<Rightarrow> world \<times> error option" where
  "activate env p w =
     (case rec_mod p of
        None \<Rightarrow> (w, None)
      | Some m \<Rightarrow>
          if \<not> rec_enabled p \<or> \<not> m_truthy m then (w, None)
          else if \<not> to_string_ok (rec_id p) then (w, Some TypeError)
          else
            (case entry_point p of
               None \<Rightarrow> (w, None)
             | Some sc \<Rightarrow> (call_entry env p sc w, None)))"

text \<open>Lines 88-101: the activation loop.\<close>

fun activate_all :: "env \<Rightarrow> plugin list \<Rightarrow> world \<Rightarrow> world \<times> error option" where
  "activate_all env [] w = (w, None)"
| "activate_all env (p # ps) w =
     (case activate env p w of
        (w1, Some e) \<Rightarrow> (w1, Some e)
      | (w1, None) \<Rightarrow> activate_all env ps w1)"

text \<open>
  \<^verbatim>\<open>loadAll\<close>, lines 35-102. The state is returned also when an error leaves the function:
  the fields have been written by then.
\<close>

definition loadAll :: "env \<Rightarrow> world \<Rightarrow> world \<times> error option" where
  "loadAll env w =
     (case load_roots env (getPluginDirs env)
             (w\<lparr>plugins := [], rendererPreloads := [], rendererPages := []\<rparr>) of
        (w1, Some e) \<Rightarrow> (w1, Some e)
      | (w1, None) \<Rightarrow> activate_all env (plugins w1) w1)"

section \<open>Queries\<close>

text \<open>Line 148.\<close>

definition getRendererPreloads :: "world \<Rightarrow> string list" where
  "getRendererPreloads w = array_from_set (rendererPreloads w)"

section \<open>Web-request hooks\<close>

definition no_cancel :: jsval where
  "no_cancel = VObj [(''cancel'', VBool False)]"

text \<open>
  \<^verbatim>\<open>applyWebRequestHandlers\<close>, lines 173-181: the function handed to
  \<^verbatim>\<open>onBeforeRequest\<close> for one listener, run on the details of one request. It yields the
  arguments \<^verbatim>\<open>callback\<close> was called with, in order, and the lines written to the console.
\<close>

definition hook :: "listener \<Rightarrow> jsval \<Rightarrow> jsval list \<times> log list" where
  "hook listener details =
     (case listener details of
        Returns res \<Rightarrow>
          if truthy res \<and> typeof res = TObject then ([res], []) else ([no_cancel], [])
      | Throws e \<Rightarrow> ([no_cancel], [WebRequestHandlerError e]))"

text \<open>
  A session with a \<^verbatim>\<open>webRequest\<close>: the hooks attached so far, each with its filter, and the
  filters for which \<^verbatim>\<open>onBeforeRequest\<close> throws.
\<close>

record session =
  hooks :: "(jsval \<times> (jsval \<Rightarrow> jsval list \<times> log list)) list"
  rejects :: "jsval \<Rightarrow> bool"

text \<open>Lines 172-184: one turn of the loop.\<close>

definition attach :: "jsval \<times> listener \<Rightarrow> session \<times> log list \<Rightarrow> session \<times> log list" where
  "attach h sl =
     (let flt = js_or (fst h) (VObj []) in
      if rejects (fst sl) flt then (fst sl, snd sl @ [FailedToAttach TypeError])
      else ((fst sl)\<lparr>hooks := hooks (fst sl) @ [(flt, hook (snd h))]\<rparr>, snd sl))"

text \<open>
  \<^verbatim>\<open>applyWebRequestHandlers\<close>, lines 168-189; \<open>None\<close> is a session that is falsy or has no
  \<^verbatim>\<open>webRequest\<close>.
\<close>

definition applyWebRequestHandlers :: "world \<Rightarrow> session option \<Rightarrow> world \<times> session option" where
  "applyWebRequestHandlers w ses =
     (case ses of
        None \<Rightarrow> (w, None)
      | Some s \<Rightarrow>
          (case fold attach (webRequestHandlers w) (s, []) of
             (s1, logs) \<Rightarrow> (w\<lparr>console := console w @ logs\<rparr>, Some s1)))"

section \<open>Discovery without loading\<close>

record descriptor =
  d_id :: jsval
  d_name :: jsval
  d_version :: jsval
  d_description :: jsval
  d_categories :: "jsval list"
  d_authors :: "jsval list"
  d_enabled :: bool
  d_hasMain :: bool
  d_hasRendererPreload :: bool
  d_dir :: string

text \<open>
  \<^verbatim>\<open>discoverPlugins\<close>, lines 226-248: the \<^verbatim>\<open>try\<close> for one directory; \<open>None\<close> is the empty
  \<^verbatim>\<open>catch\<close>. Nothing is assigned here, so only reading a property of \<^verbatim>\<open>null\<close> throws.
\<close>

definition describe :: "string \<Rightarrow> string \<Rightarrow> jsval option \<Rightarrow> descriptor option" where
  "describe dir name r =
     (case r of
        None \<Rightarrow> None
      | Some manifest \<Rightarrow>
          if nullish manifest then None
          else
            Some \<lparr>d_id = js_or (get_prop manifest ''id'') (VStr name),
                  d_name = js_or (get_prop manifest ''name'') (VStr name),
                  d_version = js_or (get_prop manifest ''version'') (VStr ''0.0.0''),
                  d_description = js_or (get_prop manifest ''description'') (VStr []),
                  d_categories = discover_categories (get_prop manifest ''categories''),
                  d_authors = discover_authors (get_prop manifest ''authors''),
                  d_enabled = (get_prop manifest ''enabled'' \<noteq> VBool False),
                  d_hasMain = truthy (get_prop manifest ''main''),
                  d_hasRendererPreload = truthy (get_prop manifest ''rendererPreload''),
                  d_dir = dir\<rparr>)"

text \<open>Lines 222-249.\<close>

fun discover_entries :: "env \<Rightarrow> string \<Rightarrow> (string \<times> bool) list \<Rightarrow> descriptor list \<Rightarrow> descriptor list" where
  "discover_entries env root [] out = out"
| "discover_entries env root (ent # ents) out =
     (if \<not> snd ent then discover_entries env root ents out
      else
        (let dir = pathJoin env root (fst ent);
             manifestPath = pathJoin env dir ''plugin.json''
         in case describe dir (fst ent) (readManifest env manifestPath) of
              None \<Rightarrow> discover_entries env root ents out
            | Some d \<Rightarrow> discover_entries env root ents (out @ [d])))"

text \<open>Lines 219-250.\<close>

fun discover_roots :: "env \<Rightarrow> string list \<Rightarrow> descriptor list \<Rightarrow> descriptor list" where
  "discover_roots env [] out = out"
| "discover_roots env (root # roots) out =
     (case readdirSync env root of
        None \<Rightarrow> discover_roots env roots out
      | Some entries \<Rightarrow> discover_roots env roots (discover_entries env root entries out))"

definition discoverPlugins :: "env \<Rightarrow> descriptor list" where
  "discoverPlugins env = discover_roots env (getPluginDirs env) []"

section \<open>Persistence and reload\<close>


text \<open>
  \<^verbatim>\<open>_clearRequireCache\<close>, lines 265-272, on the cache; the \<^verbatim>\<open>catch\<close> swallows a failing
  \<^verbatim>\<open>require.resolve\<close>.
\<close>

definition clearRequireCache :: "env \<Rightarrow> plugin \<Rightarrow> (string \<times> module) list \<Rightarrow> (string \<times> module) list" where
  "clearRequireCache env p cache =
     (case rec_mainPath p of
        None \<Rightarrow> cache
      | Some mainPath \<Rightarrow>
          if mainPath = [] then cache
          else
            (case resolve env mainPath of
               None \<Rightarrow> cache
             | Some k \<Rightarrow> AList.delete k cache))"

text \<open>\<^verbatim>\<open>reload\<close>, lines 275-280: the cache after the invalidation, before \<^verbatim>\<open>loadAll\<close>.\<close>

definition invalidate :: "env \<Rightarrow> jsval \<Rightarrow> world \<Rightarrow> (string \<times> module) list" where
  "invalidate env plugin_id w =
     (if truthy plugin_id then
        (case find (\<lambda>x. strict_eq (rec_id x) plugin_id) (plugins w) of
           Some p \<Rightarrow> clearRequireCache env p (requireCache w)
         | None \<Rightarrow> requireCache w)
      else fold (clearRequireCache env) (plugins w) (requireCache w))"

text \<open>\<^verbatim>\<open>reload\<close>, lines 274-282.\<close>

definition reload :: "env \<Rightarrow> jsval \<Rightarrow> world \<Rightarrow> world \<times> error option" where
  "reload env plugin_id w = loadAll env (w\<lparr>requireCache := invalidate env plugin_id w\<rparr>)"

section \<open>Vocabulary of the statements\<close>

text \<open>
  The record line 63 builds for one directory entry, before anything is loaded: none for
  an entry that is not a directory or whose manifest the \<^verbatim>\<open>try\<close> of lines 48-60
  rejects.
\<close>

definition candidate :: "env \<Rightarrow> string \<Rightarrow> string \<times> bool \<Rightarrow> plugin list" where
  "candidate env root ent =
     (if snd ent then
        (case parse_and_normalize
                (readManifest env (pathJoin env (pathJoin env root (fst ent)) ''plugin.json'')) of
           None \<Rightarrow> []
         | Some m \<Rightarrow> [make_record (pathJoin env root (fst ent)) (fst ent) m])
      else [])"

text \<open>The candidates of one search root, and of both roots, in scan order.\<close>

definition candidates_in :: "env \<Rightarrow> string \<Rightarrow> plugin list" where
  "candidates_in env root =
     (case readdirSync env root of
        None \<Rightarrow> []
      | Some entries \<Rightarrow> concat (map (candidate env root) entries))"

definition candidates :: "env \<Rightarrow> plugin list" where
  "candidates env = concat (map (candidates_in env) (getPluginDirs env))"

text \<open>
  A manifest field that \<^verbatim>\<open>path.join\<close> accepts where the loader uses it: absent or
  falsy (never joined), or a string. The package format asks for a relative path.
\<close>

definition path_field_ok :: "jsval \<Rightarrow> bool" where
  "path_field_ok v = (\<not> truthy v \<or> typeof v = TString)"

text \<open>
  A record that follows the package format where the loader relies on it: if enabled, its
  \<^verbatim>\<open>main\<close> and \<^verbatim>\<open>rendererPreload\<close> can be joined, and its id converts to a string if it
  declares a \<^verbatim>\<open>main\<close> (the id of a record without one is never written to a log line).
  Every manifest whose \<^verbatim>\<open>id\<close>, \<^verbatim>\<open>main\<close> and \<^verbatim>\<open>rendererPreload\<close> are strings or absent
  gives such a record.
\<close>

definition well_formed :: "plugin \<Rightarrow> bool" where
  "well_formed p =
     (rec_enabled p \<longrightarrow>
        path_field_ok (manifest_get (rec_manifest p) ''main'')
        \<and> path_field_ok (manifest_get (rec_manifest p) ''rendererPreload'')
        \<and> (truthy (manifest_get (rec_manifest p) ''main'') \<longrightarrow> to_string_ok (rec_id p)))"

text \<open>
  The id of a record converts to a string if the activation loop gets as far as building
  its context: if it is enabled and its module is truthy.
\<close>

definition id_ok :: "plugin \<Rightarrow> bool" where
  "id_ok p =
     (case rec_mod p of
        None \<Rightarrow> True
      | Some m \<Rightarrow> rec_enabled p \<and> m_truthy m \<longrightarrow> to_string_ok (rec_id p))"

text \<open>A record without its module fields: what identifies the plugin.\<close>

definition unloaded :: "plugin \<Rightarrow> plugin" where
  "unloaded p = p\<lparr>rec_mod := None, rec_mainPath := None\<rparr>"

text \<open>
  A cache \<open>c\<close> that grew from \<open>c0\<close> by successful loads only: every key holds what it
  held in \<open>c0\<close>, or was absent there and holds what running its file returned.
\<close>

definition cache_ok :: "env \<Rightarrow> (string \<times> module) list \<Rightarrow> (string \<times> module) list \<Rightarrow> bool" where
  "cache_ok env c0 c =
     (\<forall>k. map_of c k = map_of c0 k
          \<or> (map_of c0 k = None \<and> (\<exists>m. map_of c k = Some m \<and> loadFile env k = Inr m)))"

text \<open>
  The module \<open>m\<close> of record \<open>p\<close> is what loading the declared main gives, starting from
  the cache \<open>c0\<close>.
\<close>

definition load_succeeded :: "env \<Rightarrow> (string \<times> module) list \<Rightarrow> plugin \<Rightarrow> module \<Rightarrow> bool" where
  "load_succeeded env c0 p m =
     (rec_enabled p \<and>
      (\<exists>s k. manifest_get (rec_manifest p) ''main'' = VStr s \<and> s \<noteq> []
         \<and> rec_mainPath p = Some (pathJoin env (rec_dir p) s)
         \<and> resolve env (pathJoin env (rec_dir p) s) = Some k
         \<and> (map_of c0 k = Some m \<or> (map_of c0 k = None \<and> loadFile env k = Inr m))))"

text \<open>Every module handle in a list of records comes from a successful load.\<close>

definition mods_ok :: "env \<Rightarrow> (string \<times> module) list \<Rightarrow> plugin list \<Rightarrow> bool" where
  "mods_ok env c0 ps = (\<forall>p \<in> set ps. \<forall>m. rec_mod p = Some m \<longrightarrow> load_succeeded env c0 p m)"


text \<open>The manifest file of the directory \<open>name\<close> under a search root.\<close>

definition manifest_path :: "env \<Rightarrow> string \<Rightarrow> string \<Rightarrow> string" where
  "manifest_path env root name = pathJoin env (pathJoin env root name) ''plugin.json''"

text \<open>
  A directory entry that discovery can describe: a directory whose manifest file reads
  and parses, to something other than \<^verbatim>\<open>null\<close>.
\<close>

definition discoverable :: "env \<Rightarrow> string \<Rightarrow> string \<times> bool \<Rightarrow> bool" where
  "discoverable env root ent =
     (snd ent \<and>
      (case readManifest env (manifest_path env root (fst ent)) of
         None \<Rightarrow> False
       | Some v \<Rightarrow> \<not> nullish v))"

text \<open>The descriptor discovery emits for one directory entry, if any.\<close>

definition descriptor_of :: "env \<Rightarrow> string \<Rightarrow> string \<times> bool \<Rightarrow> descriptor list" where
  "descriptor_of env root ent =
     (if snd ent then
        (case describe (pathJoin env root (fst ent)) (fst ent)
                (readManifest env (manifest_path env root (fst ent))) of
           None \<Rightarrow> []
         | Some d \<Rightarrow> [d])
      else [])"

text \<open>The descriptors discovery emits for one search root.\<close>

definition discovered_in :: "env \<Rightarrow> string \<Rightarrow> descriptor list" where
  "discovered_in env root =
     (case readdirSync env root of
        None \<Rightarrow> []
      | Some entries \<Rightarrow> concat (map (descriptor_of env root) entries))"





section \<open>A sample installation\<close>

text \<open>
  Two search roots, \<^verbatim>\<open>/app/plugins\<close> and \<^verbatim>\<open>/user/plugins\<close>. \<^verbatim>\<open>alpha\<close> and \<^verbatim>\<open>beta\<close>
  declare the same id; \<^verbatim>\<open>alpha\<close> registers a web-request listener and then throws from
  \<^verbatim>\<open>activate\<close>; \<^verbatim>\<open>beta\<close> is a function that contributes a context-menu entry and a
  page; the main module of \<^verbatim>\<open>crash\<close> throws while loading; \<^verbatim>\<open>broken\<close> has no readable
  manifest; \<^verbatim>\<open>gamma\<close> exports nothing callable; \<^verbatim>\<open>off\<close> is disabled.
\<close>

definition demo_listener :: listener where
  "demo_listener d = (if d = VStr ''ads'' then Returns (VObj [(''cancel'', VBool True)]) else Returns VUndefined)"

definition alpha_module :: module where
  "alpha_module =
     Module True
       (Some (Call (RegisterWebRequest VUndefined demo_listener) (Throw (Thrown 7)) (Throw TypeError)))
       None"

definition beta_module :: module where
  "beta_module =
     Module True None
       (Some (Call (ContributeContextMenu 1)
                (Call (RegisterRendererPage (VObj [(''id'', VStr ''pg''), (''html'', VStr ''/user/plugins/beta/page.html'')]))
                   Return Return)
                Return))"

definition gamma_module :: module where
  "gamma_module = Module True None None"

definition failing_listener :: listener where
  "failing_listener d = Throws (Thrown 3)"

definition demo_env :: env where
  "demo_env =
     \<lparr>appPath = ''/app'',
      userData = ''/user'',
      pathJoin = (\<lambda>a b. a @ ''/'' @ b),
      readdirSync = (\<lambda>d.
         if d = ''/app/plugins'' then Some [(''alpha'', True), (''notes.txt'', False), (''crash'', True), (''broken'', True)]
         else if d = ''/user/plugins'' then Some [(''beta'', True), (''gamma'', True), (''off'', True)]
         else None),
      readManifest = (\<lambda>f.
         if f = ''/app/plugins/alpha/plugin.json'' then
           Some (VObj [(''id'', VStr ''dup''), (''main'', VStr ''index.js''),
                       (''rendererPreload'', VStr ''preload.js''),
                       (''authors'', VArr [VStr ''Ann'', VObj [(''name'', VStr ''Bob'')], VNum 3])])
         else if f = ''/app/plugins/crash/plugin.json'' then
           Some (VObj [(''main'', VStr ''index.js'')])
         else if f = ''/user/plugins/beta/plugin.json'' then
           Some (VObj [(''id'', VStr ''dup''), (''main'', VStr ''main.js'')])
         else if f = ''/user/plugins/gamma/plugin.json'' then
           Some (VObj [(''main'', VStr ''lib.js''), (''enabled'', VBool True)])
         else if f = ''/user/plugins/off/plugin.json'' then
           Some (VObj [(''enabled'', VBool False), (''main'', VStr ''index.js'')])
         else None),
      existsSync = (\<lambda>f. f = ''/app/plugins/alpha/preload.js''),
      resolve = Some,
      loadFile = (\<lambda>f.
         if f = ''/app/plugins/alpha/index.js'' then Inr alpha_module
         else if f = ''/user/plugins/beta/main.js'' then Inr beta_module
         else if f = ''/user/plugins/gamma/lib.js'' then Inr gamma_module
         else Inl (Thrown 1)),
      pathToFileURL = (\<lambda>f. Some (''file://'' @ f)),
      writable = (\<lambda>f. True)\<rparr>"

definition demo_alpha :: plugin where
  "demo_alpha =
     \<lparr>rec_id = VStr ''dup'', rec_dir = ''/app/plugins/alpha'',
      rec_manifest = [(''id'', VStr ''dup''), (''main'', VStr ''index.js''),
                      (''rendererPreload'', VStr ''preload.js''),
                      (''authors'', VArr [VStr ''Ann'', VObj [(''name'', VStr ''Bob'')]]),
                      (''categories'', VArr [])],
      rec_enabled = True, rec_mod = Some alpha_module,
      rec_mainPath = Some ''/app/plugins/alpha/index.js''\<rparr>"

definition demo_crash :: plugin where
  "demo_crash =
     \<lparr>rec_id = VStr ''crash'', rec_dir = ''/app/plugins/crash'',
      rec_manifest = [(''main'', VStr ''index.js''), (''categories'', VArr []), (''authors'', VArr [])],
      rec_enabled = True, rec_mod = None, rec_mainPath = None\<rparr>"

definition demo_beta :: plugin where
  "demo_beta =
     \<lparr>rec_id = VStr ''dup'', rec_dir = ''/user/plugins/beta'',
      rec_manifest = [(''id'', VStr ''dup''), (''main'', VStr ''main.js''),
                      (''categories'', VArr []), (''authors'', VArr [])],
      rec_enabled = True, rec_mod = Some beta_module,
      rec_mainPath = Some ''/user/plugins/beta/main.js''\<rparr>"

definition demo_gamma :: plugin where
  "demo_gamma =
     \<lparr>rec_id = VStr ''gamma'', rec_dir = ''/user/plugins/gamma'',
      rec_manifest = [(''main'', VStr ''lib.js''), (''enabled'', VBool True),
                      (''categories'', VArr []), (''authors'', VArr [])],
      rec_enabled = True, rec_mod = Some gamma_module,
      rec_mainPath = Some ''/user/plugins/gamma/lib.js''\<rparr>"

definition demo_off :: plugin where
  "demo_off =
     \<lparr>rec_id = VStr ''off'', rec_dir = ''/user/plugins/off'',
      rec_manifest = [(''enabled'', VBool False), (''main'', VStr ''index.js''),
                      (''categories'', VArr []), (''authors'', VArr [])],
      rec_enabled = False, rec_mod = None, rec_mainPath = None\<rparr>"

definition demo_loaded :: world where
  "demo_loaded =
     \<lparr>plugins = [demo_alpha, demo_crash, demo_beta, demo_gamma, demo_off],
      rendererPreloads = [''/app/plugins/alpha/preload.js''],
      rendererPages =
        [\<lparr>pg_id = VStr ''pg'', pg_file = VStr ''/user/plugins/beta/page.html'',
          pg_fileUrl = Some ''file:///user/plugins/beta/page.html'', pg_pluginId = VStr ''dup''\<rparr>],
      webRequestHandlers = [(VUndefined, demo_listener)],
      contextMenuContribs = [1],
      requireCache = [(''/app/plugins/alpha/index.js'', alpha_module),
                      (''/user/plugins/beta/main.js'', beta_module),
                      (''/user/plugins/gamma/lib.js'', gamma_module)],
      console = [FailedToLoadMain (VStr ''crash'') (Thrown 1),
                 ErrorActivating (VStr ''dup'') (Thrown 7),
                 RegisteredPage (VStr ''pg'') (VStr ''/user/plugins/beta/page.html'')
                   (Some ''file:///user/plugins/beta/page.html'')],
      activated = [demo_alpha, demo_beta]\<rparr>"

text \<open>The same machine after every plugin directory has been removed.\<close>

definition empty_env :: env where
  "empty_env = demo_env\<lparr>readdirSync := (\<lambda>d. None), readManifest := (\<lambda>f. None)\<rparr>"







section \<open>Lemmas\<close>

lemma set_insert_fold:
  "distinct acc \<Longrightarrow> distinct (foldl set_insert acc xs) \<and> set (foldl set_insert acc xs) = set acc \<union> set xs"
  by (induction xs arbitrary: acc) auto

lemma hook_cases:
  "(\<forall>kvs. l d = Returns (VObj kvs) \<longrightarrow> hook l d = ([VObj kvs], []))
   \<and> (\<forall>xs. l d = Returns (VArr xs) \<longrightarrow> hook l d = ([VArr xs], []))
   \<and> (\<forall>v. l d = Returns v \<longrightarrow> (\<forall>kvs. v \<noteq> VObj kvs) \<longrightarrow> (\<forall>xs. v \<noteq> VArr xs) \<longrightarrow> hook l d = ([no_cancel], []))
   \<and> (\<forall>e. l d = Throws e \<longrightarrow> hook l d = ([no_cancel], [WebRequestHandlerError e]))"
proof -
  have "hook l d = ([no_cancel], [])"
    if "l d = Returns v" "\<forall>kvs. v \<noteq> VObj kvs" "\<forall>xs. v \<noteq> VArr xs" for v
    using that by (cases v) (simp_all add: hook_def)
  then show ?thesis by (simp add: hook_def)
qed

lemma attach_step:
  "attach h (s, logs) =
     (if rejects s (js_or (fst h) (VObj [])) then (s, logs @ [FailedToAttach TypeError])
      else (s\<lparr>hooks := hooks s @ [(js_or (fst h) (VObj []), hook (snd h))]\<rparr>, logs))"
  by (simp add: attach_def Let_def)

lemma fold_attach:
  "fold attach hs (s, logs) =
     (s\<lparr>hooks := hooks s @ map (\<lambda>h. (js_or (fst h) (VObj []), hook (snd h)))
                              (filter (\<lambda>h. \<not> rejects s (js_or (fst h) (VObj []))) hs)\<rparr>,
      logs @ map (\<lambda>h. FailedToAttach TypeError) (filter (\<lambda>h. rejects s (js_or (fst h) (VObj []))) hs))"
proof (induction hs arbitrary: s logs)
  case Nil
  show ?case by simp
next
  case (Cons h hs)
  show ?case
  proof (cases "rejects s (js_or (fst h) (VObj []))")
    case True
    then show ?thesis by (simp add: attach_step Cons.IH)
  next
    case False
    then show ?thesis by (simp add: attach_step Cons.IH)
  qed
qed


lemma cache_ok_refl: "cache_ok env c c"
  by (simp add: cache_ok_def)

lemma require_ok:
  assumes "cache_ok env c0 c" and "require env p c = (r, c')"
  shows "cache_ok env c0 c'"
    and "r = Inr m \<Longrightarrow> \<exists>k. resolve env p = Some k
           \<and> (map_of c0 k = Some m \<or> (map_of c0 k = None \<and> loadFile env k = Inr m))"
proof -
  show "cache_ok env c0 c'"
    unfolding cache_ok_def
  proof
    fix k
    from assms(1) have h: "map_of c k = map_of c0 k
          \<or> (map_of c0 k = None \<and> (\<exists>m. map_of c k = Some m \<and> loadFile env k = Inr m))"
      by (simp add: cache_ok_def)
    from assms(2) h
    show "map_of c' k = map_of c0 k
          \<or> (map_of c0 k = None \<and> (\<exists>m. map_of c' k = Some m \<and> loadFile env k = Inr m))"
      by (auto simp: require_def map_add_def split: option.splits sum.splits if_splits)
  qed
  show "\<exists>k. resolve env p = Some k
           \<and> (map_of c0 k = Some m \<or> (map_of c0 k = None \<and> loadFile env k = Inr m))"
    if "r = Inr m"
  proof -
    from assms(2) that obtain k where k: "resolve env p = Some k"
      by (auto simp: require_def split: option.splits sum.splits)
    from assms(1) have h: "map_of c k = map_of c0 k
          \<or> (map_of c0 k = None \<and> (\<exists>m. map_of c k = Some m \<and> loadFile env k = Inr m))"
      by (simp add: cache_ok_def)
    from assms(2) that k h
    have "map_of c0 k = Some m \<or> (map_of c0 k = None \<and> loadFile env k = Inr m)"
      by (auto simp: require_def split: option.splits sum.splits)
    with k show ?thesis by blast
  qed
qed

lemma load_main_ok:
  assumes "load_main env r w = (r', w', err)"
    and "cache_ok env c0 (requireCache w)"
    and "rec_mod r = None" and "rec_enabled r"
  shows "cache_ok env c0 (requireCache w')"
    and "\<And>m. rec_mod r' = Some m \<Longrightarrow> load_succeeded env c0 r' m"
    and "unloaded r' = unloaded r"
    and "plugins w' = plugins w"
    and "rendererPreloads w' = rendererPreloads w"
    and "rendererPages w' = rendererPages w"
    and "webRequestHandlers w' = webRequestHandlers w"
    and "contextMenuContribs w' = contextMenuContribs w"
    and "activated w' = activated w"
    and "path_field_ok (manifest_get (rec_manifest r) ''main'') \<Longrightarrow>
         (truthy (manifest_get (rec_manifest r) ''main'') \<longrightarrow> to_string_ok (rec_id r)) \<Longrightarrow>
         err = None"
    and "rec_id r' = rec_id r"
proof -
  let ?main = "manifest_get (rec_manifest r) ''main''"
  show "cache_ok env c0 (requireCache w')"
    using assms(1,2)
    by (auto simp: load_main_def Let_def split: if_splits jsval.splits prod.splits sum.splits
             dest: require_ok(1))
  show "load_succeeded env c0 r' m" if "rec_mod r' = Some m" for m
    using assms that
    by (auto simp: load_main_def Let_def load_succeeded_def split: if_splits jsval.splits prod.splits sum.splits
             dest: require_ok(2))
  show "unloaded r' = unloaded r"
    using assms(1)
    by (auto simp: load_main_def Let_def unloaded_def split: if_splits jsval.splits prod.splits sum.splits)
  show "plugins w' = plugins w" "rendererPreloads w' = rendererPreloads w"
    "rendererPages w' = rendererPages w" "webRequestHandlers w' = webRequestHandlers w"
    "contextMenuContribs w' = contextMenuContribs w" "activated w' = activated w"
    using assms(1)
    by (auto simp: load_main_def Let_def split: if_splits jsval.splits prod.splits sum.splits)
  show "err = None"
    if "path_field_ok ?main" "truthy ?main \<longrightarrow> to_string_ok (rec_id r)"
    using assms(1) that
    by (auto simp: load_main_def Let_def path_field_ok_def split: if_splits jsval.splits prod.splits sum.splits)
  show "rec_id r' = rec_id r"
    using assms(1)
    by (auto simp: load_main_def Let_def split: if_splits jsval.splits prod.splits sum.splits)
qed

lemma collect_preload_ok:
  assumes "collect_preload env r w = (w', err)"
  shows "requireCache w' = requireCache w"
    and "plugins w' = plugins w"
    and "rendererPages w' = rendererPages w"
    and "webRequestHandlers w' = webRequestHandlers w"
    and "contextMenuContribs w' = contextMenuContribs w"
    and "activated w' = activated w"
    and "err = (if path_field_ok (manifest_get (rec_manifest r) ''rendererPreload'') then None else Some TypeError)"
  using assms
  by (auto simp: collect_preload_def Let_def path_field_ok_def split: if_splits jsval.splits)


lemma unloaded_fields:
  "rec_id (unloaded p) = rec_id p" "rec_dir (unloaded p) = rec_dir p"
  "rec_manifest (unloaded p) = rec_manifest p" "rec_enabled (unloaded p) = rec_enabled p"
  "rec_mod (unloaded p) = None" "rec_mainPath (unloaded p) = None"
  by (simp_all add: unloaded_def)

lemma unloaded_eqD:
  assumes "unloaded p = unloaded q"
  shows "rec_id p = rec_id q" "rec_dir p = rec_dir q"
    "rec_manifest p = rec_manifest q" "rec_enabled p = rec_enabled q"
  using unloaded_fields(1) [of p] unloaded_fields(1) [of q]
    unloaded_fields(2) [of p] unloaded_fields(2) [of q]
    unloaded_fields(3) [of p] unloaded_fields(3) [of q]
    unloaded_fields(4) [of p] unloaded_fields(4) [of q] assms
  by simp_all

lemma unloaded_make_record: "unloaded (make_record d n m) = make_record d n m"
  by (simp add: unloaded_def make_record_def)

lemma mods_ok_snoc:
  "mods_ok env c0 (ps @ [p]) = (mods_ok env c0 ps \<and> (\<forall>m. rec_mod p = Some m \<longrightarrow> load_succeeded env c0 p m))"
  by (auto simp: mods_ok_def)

lemma load_entry_ok:
  assumes run: "load_entry env root ent w = (w', err)"
    and c: "cache_ok env c0 (requireCache w)"
    and m: "mods_ok env c0 (plugins w)"
  shows "cache_ok env c0 (requireCache w')"
    and "mods_ok env c0 (plugins w')"
    and "rendererPages w' = rendererPages w"
    and "webRequestHandlers w' = webRequestHandlers w"
    and "contextMenuContribs w' = contextMenuContribs w"
    and "activated w' = activated w"
    and "err = None \<Longrightarrow> map unloaded (plugins w') = map unloaded (plugins w) @ candidate env root ent"
    and "(\<forall>c \<in> set (candidate env root ent). well_formed c) \<Longrightarrow> err = None"
proof -
  let ?dir = "pathJoin env root (fst ent)"
  let ?pm = "parse_and_normalize (readManifest env (pathJoin env ?dir ''plugin.json''))"
  have all: "cache_ok env c0 (requireCache w') \<and> mods_ok env c0 (plugins w')
      \<and> rendererPages w' = rendererPages w
      \<and> webRequestHandlers w' = webRequestHandlers w
      \<and> contextMenuContribs w' = contextMenuContribs w
      \<and> activated w' = activated w
      \<and> (err = None \<longrightarrow> map unloaded (plugins w') = map unloaded (plugins w) @ candidate env root ent)
      \<and> ((\<forall>c \<in> set (candidate env root ent). well_formed c) \<longrightarrow> err = None)"
  proof (cases "snd ent")
    case False
    with run c m show ?thesis
      by (simp add: load_entry_def candidate_def)
  next
    case dir: True
    show ?thesis
    proof (cases ?pm)
      case None
      with run c m dir show ?thesis
        by (simp add: load_entry_def candidate_def)
    next
      case (Some mf)
      let ?r = "make_record ?dir (fst ent) mf"
      have cand: "candidate env root ent = [?r]"
        using dir Some by (simp add: candidate_def)
      show ?thesis
      proof (cases "rec_enabled ?r")
        case False
        with run dir Some have w': "w' = w\<lparr>plugins := plugins w @ [?r]\<rparr>" and e: "err = None"
          by (simp_all add: load_entry_def Let_def)
        have "rec_mod ?r = None" by (simp add: make_record_def)
        with c m show ?thesis
          by (simp add: w' e cand mods_ok_snoc unloaded_make_record)
      next
        case en: True
        obtain r1 w1 e1 where lm: "load_main env ?r w = (r1, w1, e1)"
          by (cases "load_main env ?r w") auto
        have none: "rec_mod ?r = None" by (simp add: make_record_def)
        note L = load_main_ok [OF lm c none en]
        obtain w2 e2 where cp: "collect_preload env r1 w1 = (w2, e2)"
          by (cases "collect_preload env r1 w1") auto
        note P = collect_preload_ok [OF cp]
        have man: "rec_manifest r1 = rec_manifest ?r" and en1: "rec_enabled r1 = rec_enabled ?r"
          using unloaded_eqD [OF L(3)] by simp_all
        have u1: "unloaded r1 = ?r"
          using L(3) by (simp add: unloaded_make_record)
        show ?thesis
        proof (cases e1)
          case (Some x)
          with run dir \<open>?pm = Some mf\<close> en lm have w': "w' = w1" and e: "err = Some x"
            by (simp_all add: load_entry_def Let_def)
          from Some L(10) have "\<not> (path_field_ok (manifest_get (rec_manifest ?r) ''main'')
              \<and> (truthy (manifest_get (rec_manifest ?r) ''main'') \<longrightarrow> to_string_ok (rec_id ?r)))"
            by auto
          with en have "\<not> well_formed ?r" by (auto simp: well_formed_def)
          with L m show ?thesis
            by (simp add: w' e cand)
        next
          case None
          show ?thesis
          proof (cases e2)
            case (Some x)
            with run dir \<open>?pm = Some mf\<close> en lm cp None have w': "w' = w2" and e: "err = Some x"
              by (simp_all add: load_entry_def Let_def)
            from Some P(7) have "\<not> path_field_ok (manifest_get (rec_manifest ?r) ''rendererPreload'')"
              by (simp add: man split: if_splits)
            with en have "\<not> well_formed ?r" by (simp add: well_formed_def)
            with L P m show ?thesis
              by (simp add: w' e cand)
          next
            case e2n: None
            with run dir \<open>?pm = Some mf\<close> en lm cp None
            have w': "w' = w2\<lparr>plugins := plugins w2 @ [r1]\<rparr>" and e: "err = None"
              by (simp_all add: load_entry_def Let_def)
            from L P m show ?thesis
              by (simp add: w' e cand mods_ok_snoc u1)
          qed
        qed
      qed
    qed
  qed
  from all show "cache_ok env c0 (requireCache w')" by simp
  from all show "mods_ok env c0 (plugins w')" by simp
  from all show "rendererPages w' = rendererPages w" by simp
  from all show "webRequestHandlers w' = webRequestHandlers w" by simp
  from all show "contextMenuContribs w' = contextMenuContribs w" by simp
  from all show "activated w' = activated w" by simp
  from all show "err = None \<Longrightarrow> map unloaded (plugins w') = map unloaded (plugins w) @ candidate env root ent" by simp
  from all show "(\<forall>c \<in> set (candidate env root ent). well_formed c) \<Longrightarrow> err = None" by simp
qed


lemma load_entries_ok:
  assumes "load_entries env root ents w = (w', err)"
    and "cache_ok env c0 (requireCache w)"
    and "mods_ok env c0 (plugins w)"
  shows "cache_ok env c0 (requireCache w') \<and> mods_ok env c0 (plugins w')
      \<and> rendererPages w' = rendererPages w
      \<and> webRequestHandlers w' = webRequestHandlers w
      \<and> contextMenuContribs w' = contextMenuContribs w
      \<and> activated w' = activated w
      \<and> (err = None \<longrightarrow>
           map unloaded (plugins w') = map unloaded (plugins w) @ concat (map (candidate env root) ents))
      \<and> ((\<forall>c \<in> set (concat (map (candidate env root) ents)). well_formed c) \<longrightarrow> err = None)"
  using assms
proof (induction ents arbitrary: w)
  case Nil
  then show ?case by simp
next
  case (Cons ent ents)
  obtain w1 e1 where step: "load_entry env root ent w = (w1, e1)"
    by (cases "load_entry env root ent w") auto
  note E = load_entry_ok [OF step Cons.prems(2) Cons.prems(3)]
  show ?case
  proof (cases e1)
    case (Some x)
    with Cons.prems(1) step have "w' = w1" "err = Some x" by simp_all
    with E Some show ?thesis by auto
  next
    case None
    with Cons.prems(1) step have rest: "load_entries env root ents w1 = (w', err)" by simp
    from Cons.IH [OF rest E(1) E(2)] E None show ?thesis by auto
  qed
qed

lemma load_roots_ok:
  assumes "load_roots env roots w = (w', err)"
    and "cache_ok env c0 (requireCache w)"
    and "mods_ok env c0 (plugins w)"
  shows "cache_ok env c0 (requireCache w') \<and> mods_ok env c0 (plugins w')
      \<and> rendererPages w' = rendererPages w
      \<and> webRequestHandlers w' = webRequestHandlers w
      \<and> contextMenuContribs w' = contextMenuContribs w
      \<and> activated w' = activated w
      \<and> (err = None \<longrightarrow>
           map unloaded (plugins w') = map unloaded (plugins w) @ concat (map (candidates_in env) roots))
      \<and> ((\<forall>c \<in> set (concat (map (candidates_in env) roots)). well_formed c) \<longrightarrow> err = None)"
  using assms
proof (induction roots arbitrary: w)
  case Nil
  then show ?case by simp
next
  case (Cons root roots)
  show ?case
  proof (cases "readdirSync env root")
    case None
    with Cons.prems(1) have rest: "load_roots env roots w = (w', err)" by simp
    from None have "candidates_in env root = []" by (simp add: candidates_in_def)
    with Cons.IH [OF rest Cons.prems(2) Cons.prems(3)] show ?thesis by simp
  next
    case (Some ents)
    then have ci: "candidates_in env root = concat (map (candidate env root) ents)"
      by (simp add: candidates_in_def)
    obtain w1 e1 where step: "load_entries env root ents w = (w1, e1)"
      by (cases "load_entries env root ents w") auto
    note E = load_entries_ok [OF step Cons.prems(2) Cons.prems(3)]
    show ?thesis
    proof (cases e1)
      case (Some x)
      with Cons.prems(1) step \<open>readdirSync env root = Some ents\<close>
      have "w' = w1" "err = Some x" by simp_all
      with E Some ci show ?thesis by auto
    next
      case None
      with Cons.prems(1) step \<open>readdirSync env root = Some ents\<close>
      have rest: "load_roots env roots w1 = (w', err)" by simp
      from E have c1: "cache_ok env c0 (requireCache w1)" and m1: "mods_ok env c0 (plugins w1)"
        by simp_all
      from Cons.IH [OF rest c1 m1] E None ci show ?thesis by auto
    qed
  qed
qed


lemma do_call_frame:
  assumes "do_call env p c w = (w', raised)"
  shows "plugins w' = plugins w" "rendererPreloads w' = rendererPreloads w"
    "requireCache w' = requireCache w" "activated w' = activated w"
    "\<exists>new. webRequestHandlers w' = webRequestHandlers w @ new"
    "\<exists>new. contextMenuContribs w' = contextMenuContribs w @ new"
    "\<exists>new. console w' = console w @ new"
  using assms
  by (cases c; auto simp: registerRendererPage_def Let_def split: if_splits)+

lemma do_call_raised: "snd (do_call env p c w) = snd (do_call env p c w0)"
  by (cases c) (simp_all add: registerRendererPage_def Let_def)

lemma run_script_frame:
  "run_script env p sc w = (w', r) \<Longrightarrow>
     plugins w' = plugins w \<and> rendererPreloads w' = rendererPreloads w
     \<and> requireCache w' = requireCache w \<and> activated w' = activated w
     \<and> (\<exists>new. webRequestHandlers w' = webRequestHandlers w @ new)
     \<and> (\<exists>new. contextMenuContribs w' = contextMenuContribs w @ new)
     \<and> (\<exists>new. console w' = console w @ new)"
proof (induction sc arbitrary: w)
  case Return
  then show ?case by simp
next
  case (Throw e)
  then show ?case by simp
next
  case (Call c ok ex)
  obtain w1 raised where dc: "do_call env p c w = (w1, raised)"
    by (cases "do_call env p c w") auto
  note F = do_call_frame [OF dc]
  show ?case
  proof (cases raised)
    case True
    with Call.prems dc have "run_script env p ex w1 = (w', r)" by simp
    from Call.IH(2) [OF this] F show ?thesis by auto
  next
    case False
    with Call.prems dc have "run_script env p ok w1 = (w', r)" by simp
    from Call.IH(1) [OF this] F show ?thesis by auto
  qed
qed

lemma run_script_outcome: "snd (run_script env p sc w) = snd (run_script env p sc w0)"
proof (induction sc arbitrary: w w0)
  case Return
  show ?case by simp
next
  case (Throw e)
  show ?case by simp
next
  case (Call c ok ex)
  obtain w1 r1 where a: "do_call env p c w = (w1, r1)" by (cases "do_call env p c w") auto
  obtain w2 r2 where b: "do_call env p c w0 = (w2, r2)" by (cases "do_call env p c w0") auto
  from do_call_raised [of env p c w w0] a b have "r1 = r2" by simp
  with a b Call.IH(1) [of w1 w2] Call.IH(2) [of w1 w2] show ?case by simp
qed

lemma call_entry_frame:
  "plugins (call_entry env p sc w) = plugins w
   \<and> rendererPreloads (call_entry env p sc w) = rendererPreloads w
   \<and> requireCache (call_entry env p sc w) = requireCache w
   \<and> activated (call_entry env p sc w) = activated w @ [p]
   \<and> (\<exists>new. webRequestHandlers (call_entry env p sc w) = webRequestHandlers w @ new)
   \<and> (\<exists>new. contextMenuContribs (call_entry env p sc w) = contextMenuContribs w @ new)
   \<and> (\<exists>new. console (call_entry env p sc w) = console w @ new)
   \<and> (\<forall>e. snd (run_script env p sc w0) = Some e \<longrightarrow>
          ErrorActivating (rec_id p) e \<in> set (console (call_entry env p sc w)))"
proof -
  let ?w = "w\<lparr>activated := activated w @ [p]\<rparr>"
  obtain w1 r where rs: "run_script env p sc ?w = (w1, r)"
    by (cases "run_script env p sc ?w") auto
  from run_script_outcome [of env p sc ?w w0] rs have r: "snd (run_script env p sc w0) = r" by simp
  from run_script_frame [OF rs] rs r show ?thesis
    by (cases r) (auto simp: call_entry_def)
qed

lemma entry_point_SomeD:
  "entry_point p = Some sc \<Longrightarrow>
     rec_enabled p \<and> (\<exists>m. rec_mod p = Some m \<and> m_truthy m
        \<and> (m_activate m = Some sc \<or> (m_activate m = None \<and> m_callable m = Some sc)))"
  by (auto simp: entry_point_def split: option.splits if_splits)


lemma activate_error: "(snd (activate env p w) = None) = id_ok p"
  by (auto simp: activate_def id_ok_def split: option.splits)

lemma activate_frame:
  assumes "activate env p w = (w', err)"
  shows "plugins w' = plugins w
   \<and> rendererPreloads w' = rendererPreloads w
   \<and> requireCache w' = requireCache w
   \<and> activated w' = activated w @ (if err = None \<and> entry_point p \<noteq> None then [p] else [])
   \<and> (\<exists>new. webRequestHandlers w' = webRequestHandlers w @ new)
   \<and> (\<exists>new. contextMenuContribs w' = contextMenuContribs w @ new)
   \<and> (\<exists>new. console w' = console w @ new)
   \<and> (err = None \<longrightarrow>
        (\<forall>sc e. entry_point p = Some sc \<longrightarrow> snd (run_script env p sc w0) = Some e \<longrightarrow>
           ErrorActivating (rec_id p) e \<in> set (console w')))"
proof (cases "entry_point p")
  case None
  with assms show ?thesis
    by (auto simp: activate_def split: option.splits if_splits)
next
  case (Some sc)
  from entry_point_SomeD [OF Some] obtain m where
    m: "rec_mod p = Some m" "rec_enabled p" "m_truthy m" by blast
  show ?thesis
  proof (cases "to_string_ok (rec_id p)")
    case True
    with assms Some m have "w' = call_entry env p sc w" "err = None"
      by (simp_all add: activate_def)
    with call_entry_frame [of env p sc w w0] Some show ?thesis by simp
  next
    case False
    with assms Some m have "w' = w" "err = Some TypeError"
      by (simp_all add: activate_def)
    then show ?thesis by simp
  qed
qed

lemma activate_all_frame:
  assumes "activate_all env ps w = (w', err)"
  shows "plugins w' = plugins w
   \<and> rendererPreloads w' = rendererPreloads w
   \<and> requireCache w' = requireCache w
   \<and> (\<exists>new. activated w' = activated w @ new
         \<and> (\<forall>p \<in> set new. p \<in> set ps \<and> entry_point p \<noteq> None))
   \<and> (err = None \<longrightarrow>
         activated w' = activated w @ filter (\<lambda>p. entry_point p \<noteq> None) ps)
   \<and> (\<exists>new. webRequestHandlers w' = webRequestHandlers w @ new)
   \<and> (\<exists>new. contextMenuContribs w' = contextMenuContribs w @ new)
   \<and> (\<exists>new. console w' = console w @ new)
   \<and> ((\<forall>p \<in> set ps. id_ok p) \<longrightarrow> err = None)
   \<and> (err = None \<longrightarrow>
        (\<forall>p \<in> set ps. \<forall>sc e. entry_point p = Some sc \<longrightarrow> snd (run_script env p sc w0) = Some e \<longrightarrow>
           ErrorActivating (rec_id p) e \<in> set (console w')))"
  using assms
proof (induction ps arbitrary: w)
  case Nil
  then show ?case by simp
next
  case (Cons p ps)
  obtain w1 e1 where step: "activate env p w = (w1, e1)"
    by (cases "activate env p w") auto
  note A = activate_frame [OF step, of w0]
  from A have Afr: "plugins w1 = plugins w" "rendererPreloads w1 = rendererPreloads w"
    "requireCache w1 = requireCache w" by simp_all
  from A have Aact: "activated w1 = activated w @ (if e1 = None \<and> entry_point p \<noteq> None then [p] else [])"
    by simp
  from A obtain h1 where Ah: "webRequestHandlers w1 = webRequestHandlers w @ h1" by blast
  from A obtain m1 where Am: "contextMenuContribs w1 = contextMenuContribs w @ m1" by blast
  from A obtain l1 where Al: "console w1 = console w @ l1" by blast
  from A have Alog: "e1 = None \<longrightarrow>
        (\<forall>sc e. entry_point p = Some sc \<longrightarrow> snd (run_script env p sc w0) = Some e \<longrightarrow>
           ErrorActivating (rec_id p) e \<in> set (console w1))" by simp
  from activate_error [of env p w] step have idp: "(e1 = None) = id_ok p" by simp
  show ?case
  proof (cases e1)
    case (Some x)
    with Cons.prems step have w': "w' = w1" and e: "err = Some x" by simp_all
    from Aact Some have act: "activated w1 = activated w @ []" by simp
    have tr: "\<exists>new. activated w1 = activated w @ new
         \<and> (\<forall>q \<in> set new. q \<in> set (p # ps) \<and> entry_point q \<noteq> None)"
      using act by (intro exI [of _ "[]"]) simp
    from idp Some have "\<not> id_ok p" by simp
    then have ok: "(\<forall>q \<in> set (p # ps). id_ok q) \<longrightarrow> Some x = None" by simp
    show ?thesis
      unfolding w' e using Afr tr Ah Am Al ok by (intro conjI) simp_all
  next
    case None
    with Cons.prems step have rest: "activate_all env ps w1 = (w', err)" by simp
    note I = Cons.IH [OF rest]
    from I have Ifr: "plugins w' = plugins w1" "rendererPreloads w' = rendererPreloads w1"
      "requireCache w' = requireCache w1" by simp_all
    from I obtain new where new: "activated w' = activated w1 @ new"
      "\<forall>q \<in> set new. q \<in> set ps \<and> entry_point q \<noteq> None" by blast
    from I have Iex: "err = None \<longrightarrow>
         activated w' = activated w1 @ filter (\<lambda>p. entry_point p \<noteq> None) ps" by simp
    from I obtain h2 where Ih: "webRequestHandlers w' = webRequestHandlers w1 @ h2" by blast
    from I obtain m2 where Im: "contextMenuContribs w' = contextMenuContribs w1 @ m2" by blast
    from I obtain l2 where Il: "console w' = console w1 @ l2" by blast
    from I have Iok: "(\<forall>q \<in> set ps. id_ok q) \<longrightarrow> err = None" by simp
    from I have Ilog: "err = None \<longrightarrow>
        (\<forall>q \<in> set ps. \<forall>sc e. entry_point q = Some sc \<longrightarrow> snd (run_script env q sc w0) = Some e \<longrightarrow>
           ErrorActivating (rec_id q) e \<in> set (console w'))" by simp
    from Aact None have a1: "activated w1 = activated w @ (if entry_point p \<noteq> None then [p] else [])"
      by simp
    have fr: "plugins w' = plugins w" "rendererPreloads w' = rendererPreloads w"
      "requireCache w' = requireCache w"
      using Afr Ifr by simp_all
    have tr: "\<exists>new. activated w' = activated w @ new
         \<and> (\<forall>q \<in> set new. q \<in> set (p # ps) \<and> entry_point q \<noteq> None)"
    proof (intro exI conjI)
      show "activated w' = activated w @ ((if entry_point p \<noteq> None then [p] else []) @ new)"
        using new(1) a1 by simp
      show "\<forall>q \<in> set ((if entry_point p \<noteq> None then [p] else []) @ new).
              q \<in> set (p # ps) \<and> entry_point q \<noteq> None"
        using new(2) by (cases "entry_point p") auto
    qed
    have ex: "err = None \<longrightarrow>
        activated w' = activated w @ filter (\<lambda>p. entry_point p \<noteq> None) (p # ps)"
      using Iex a1 by simp
    have hs: "\<exists>new. webRequestHandlers w' = webRequestHandlers w @ new"
      using Ah Ih by simp
    have cs: "\<exists>new. contextMenuContribs w' = contextMenuContribs w @ new"
      using Am Im by simp
    have ls: "\<exists>new. console w' = console w @ new"
      using Al Il by simp
    have ok: "(\<forall>q \<in> set (p # ps). id_ok q) \<longrightarrow> err = None"
      using Iok by simp
    have here: "\<forall>sc e. entry_point p = Some sc \<longrightarrow> snd (run_script env p sc w0) = Some e \<longrightarrow>
          ErrorActivating (rec_id p) e \<in> set (console w')"
      using Alog None Il by simp
    have logs: "err = None \<longrightarrow>
        (\<forall>q \<in> set (p # ps). \<forall>sc e. entry_point q = Some sc \<longrightarrow> snd (run_script env q sc w0) = Some e \<longrightarrow>
           ErrorActivating (rec_id q) e \<in> set (console w'))"
      using Ilog here by simp
    from fr tr ex hs cs ls ok logs show ?thesis by (intro conjI)
  qed
qed

lemmas eval_defs =
  loadAll_def getPluginDirs_def load_entry_def load_main_def collect_preload_def require_def
  parse_and_normalize_def make_record_def manifest_get_def normalize_categories_def
  normalize_authors_def author_ok_def js_or_def js_and_def activate_def entry_point_def call_entry_def
  registerRendererPage_def constructor_def Let_def

lemma demo_loadAll: "loadAll demo_env constructor = (demo_loaded, None)"
  by (simp add: eval_defs demo_env_def demo_loaded_def demo_alpha_def demo_beta_def demo_crash_def demo_off_def demo_gamma_def
       alpha_module_def beta_module_def gamma_module_def)


lemma mods_ok_Nil: "mods_ok env c0 []"
  by (simp add: mods_ok_def)


lemma load_succeeded_require:
  assumes "load_succeeded env c0 p m"
  shows "rec_enabled p \<and>
     (\<exists>s. manifest_get (rec_manifest p) ''main'' = VStr s \<and> s \<noteq> []
        \<and> rec_mainPath p = Some (pathJoin env (rec_dir p) s)
        \<and> fst (require env (pathJoin env (rec_dir p) s) c0) = Inr m)"
  using assms by (auto simp: load_succeeded_def require_def)

lemma well_formed_id_ok:
  assumes wf: "well_formed (unloaded p)" and m: "\<forall>m. rec_mod p = Some m \<longrightarrow> load_succeeded env c0 p m"
  shows "id_ok p"
proof (cases "rec_mod p")
  case None
  then show ?thesis by (simp add: id_ok_def)
next
  case (Some mo)
  with m have "load_succeeded env c0 p mo" by simp
  from load_succeeded_require [OF this] obtain s where
    "rec_enabled p" "manifest_get (rec_manifest p) ''main'' = VStr s" "s \<noteq> []" by blast
  with wf have "to_string_ok (rec_id p)"
    by (simp add: well_formed_def unloaded_fields)
  with Some show ?thesis by (simp add: id_ok_def)
qed

lemma loadAll_summary:
  assumes run: "loadAll env w = (w', err)"
  shows "mods_ok env (requireCache w) (plugins w')"
    and "err = None \<Longrightarrow> map unloaded (plugins w') = candidates env"
    and "(\<forall>c \<in> set (candidates env). well_formed c) \<Longrightarrow> err = None"
    and "\<exists>new. activated w' = activated w @ new
           \<and> (\<forall>p \<in> set new. p \<in> set (plugins w') \<and> entry_point p \<noteq> None)"
    and "err = None \<Longrightarrow>
           activated w' = activated w @ filter (\<lambda>p. entry_point p \<noteq> None) (plugins w')"
    and "err = None \<Longrightarrow>
           \<forall>p \<in> set (plugins w'). \<forall>sc e. entry_point p = Some sc \<longrightarrow>
              snd (run_script env p sc w0) = Some e \<longrightarrow>
              ErrorActivating (rec_id p) e \<in> set (console w')"
proof -
  let ?w0 = "w\<lparr>plugins := [], rendererPreloads := [], rendererPages := []\<rparr>"
  obtain w1 e1 where scan: "load_roots env (getPluginDirs env) ?w0 = (w1, e1)"
    by (cases "load_roots env (getPluginDirs env) ?w0") auto
  have c: "cache_ok env (requireCache w) (requireCache ?w0)" by (simp add: cache_ok_refl)
  have m: "mods_ok env (requireCache w) (plugins ?w0)" by (simp add: mods_ok_Nil)
  note R = load_roots_ok [OF scan c m]
  have cands: "concat (map (candidates_in env) (getPluginDirs env)) = candidates env"
    by (simp add: candidates_def)
  have all: "mods_ok env (requireCache w) (plugins w')
      \<and> (err = None \<longrightarrow> map unloaded (plugins w') = candidates env)
      \<and> ((\<forall>c \<in> set (candidates env). well_formed c) \<longrightarrow> err = None)
      \<and> (\<exists>new. activated w' = activated w @ new
           \<and> (\<forall>p \<in> set new. p \<in> set (plugins w') \<and> entry_point p \<noteq> None))
      \<and> (err = None \<longrightarrow>
           activated w' = activated w @ filter (\<lambda>p. entry_point p \<noteq> None) (plugins w'))
      \<and> (err = None \<longrightarrow>
           (\<forall>p \<in> set (plugins w'). \<forall>sc e. entry_point p = Some sc \<longrightarrow>
              snd (run_script env p sc w0) = Some e \<longrightarrow>
              ErrorActivating (rec_id p) e \<in> set (console w')))"
  proof (cases e1)
    case (Some x)
    with run scan have "w' = w1" "err = Some x" by (simp_all add: loadAll_def)
    with R Some cands show ?thesis by auto
  next
    case None
    with run scan have act: "activate_all env (plugins w1) w1 = (w', err)"
      by (simp add: loadAll_def)
    note A = activate_all_frame [OF act, of w0]
    from A have pl: "plugins w' = plugins w1" by simp
    from R None cands have u: "map unloaded (plugins w1) = candidates env" by simp
    from R have a1: "activated w1 = activated w" by simp
    from R have mo: "mods_ok env (requireCache w) (plugins w1)" by simp
    have ok: "err = None" if wf: "\<forall>c \<in> set (candidates env). well_formed c"
    proof -
      have "id_ok p" if p: "p \<in> set (plugins w1)" for p
      proof -
        from p have "unloaded p \<in> set (map unloaded (plugins w1))" by simp
        with u wf have "well_formed (unloaded p)" by simp
        moreover from mo p
        have "\<forall>m. rec_mod p = Some m \<longrightarrow> load_succeeded env (requireCache w) p m"
          by (simp add: mods_ok_def)
        ultimately show ?thesis by (rule well_formed_id_ok)
      qed
      with A show ?thesis by simp
    qed
    from A a1 have tr: "\<exists>new. activated w' = activated w @ new
           \<and> (\<forall>p \<in> set new. p \<in> set (plugins w') \<and> entry_point p \<noteq> None)"
      by (simp add: pl)
    from A a1 have ex: "err = None \<longrightarrow>
           activated w' = activated w @ filter (\<lambda>p. entry_point p \<noteq> None) (plugins w')"
      by (simp add: pl)
    from A have logs: "err = None \<longrightarrow>
           (\<forall>p \<in> set (plugins w'). \<forall>sc e. entry_point p = Some sc \<longrightarrow>
              snd (run_script env p sc w0) = Some e \<longrightarrow>
              ErrorActivating (rec_id p) e \<in> set (console w'))"
      by (simp add: pl)
    from mo u ok tr ex logs show ?thesis by (simp add: pl)
  qed
  from all show "mods_ok env (requireCache w) (plugins w')" by simp
  from all show "err = None \<Longrightarrow> map unloaded (plugins w') = candidates env" by simp
  from all show "(\<forall>c \<in> set (candidates env). well_formed c) \<Longrightarrow> err = None" by simp
  from all show "\<exists>new. activated w' = activated w @ new
           \<and> (\<forall>p \<in> set new. p \<in> set (plugins w') \<and> entry_point p \<noteq> None)" by simp
  from all show "err = None \<Longrightarrow>
           activated w' = activated w @ filter (\<lambda>p. entry_point p \<noteq> None) (plugins w')" by simp
  from all show "err = None \<Longrightarrow>
           \<forall>p \<in> set (plugins w'). \<forall>sc e. entry_point p = Some sc \<longrightarrow>
              snd (run_script env p sc w0) = Some e \<longrightarrow>
              ErrorActivating (rec_id p) e \<in> set (console w')" by simp
qed




























lemma discover_entries_conv:
  "discover_entries env root ents out = out @ concat (map (descriptor_of env root) ents)"
proof (induction ents arbitrary: out)
  case Nil
  show ?case by simp
next
  case (Cons ent ents)
  show ?case
    by (simp add: Cons.IH descriptor_of_def manifest_path_def Let_def split: option.split)
qed

lemma discover_roots_conv:
  "discover_roots env roots out = out @ concat (map (discovered_in env) roots)"
proof (induction roots arbitrary: out)
  case Nil
  show ?case by simp
next
  case (Cons root roots)
  show ?case
    by (simp add: Cons.IH discovered_in_def discover_entries_conv split: option.split)
qed

lemma descriptor_of_dir:
  "map d_dir (descriptor_of env root ent) =
     (if discoverable env root ent then [pathJoin env root (fst ent)] else [])"
  by (auto simp: descriptor_of_def discoverable_def describe_def split: option.splits jsval.splits)

lemma discovered_in_dirs:
  "map d_dir (discovered_in env root) =
     (case readdirSync env root of
        None \<Rightarrow> []
      | Some entries \<Rightarrow>
          map (\<lambda>e. pathJoin env root (fst e)) (filter (discoverable env root) entries))"
proof (cases "readdirSync env root")
  case None
  then show ?thesis by (simp add: discovered_in_def)
next
  case (Some ents)
  have "map d_dir (concat (map (descriptor_of env root) ents)) =
      map (\<lambda>e. pathJoin env root (fst e)) (filter (discoverable env root) ents)"
    by (induction ents) (simp_all add: descriptor_of_dir)
  with Some show ?thesis by (simp add: discovered_in_def)
qed


subsection \<open>The sample installation, evaluated\<close>

lemma demo_candidates:
  "candidates demo_env =
     map unloaded [demo_alpha, demo_crash, demo_beta, demo_gamma, demo_off]"
  by (simp add: candidates_def candidates_in_def candidate_def unloaded_def eval_defs demo_env_def
        demo_alpha_def demo_beta_def demo_crash_def demo_off_def demo_gamma_def)

lemma demo_well_formed: "list_all well_formed (candidates demo_env)"
  by (simp add: demo_candidates well_formed_def path_field_ok_def unloaded_def manifest_get_def
        demo_alpha_def demo_beta_def demo_crash_def demo_off_def demo_gamma_def)



lemma empty_scan: "load_roots empty_env (getPluginDirs empty_env) w = (w, None)"
  by (simp add: getPluginDirs_def empty_env_def demo_env_def)





section \<open>The claims\<close>

subsection \<open>C1: what a full load rebuilds\<close>

text \<open>
  Claim C1 says that every load or reload clears and rebuilds five collections: the
  records, the preload list, the page registrations, the web-request entries and the
  context-menu contributors. \<^verbatim>\<open>loadAll\<close> resets the first three only (lines 36-38). In
  the sample installation, after one load a second load finds no plugin directory at
  all, and still the web-request entry and the context-menu contributor of the first
  pass are there.
\<close>

theorem handlers_survive_load_counterexample:
  "fst (loadAll demo_env constructor) = demo_loaded
   \<and> plugins (fst (loadAll empty_env demo_loaded)) = []
   \<and> rendererPreloads (fst (loadAll empty_env demo_loaded)) = []
   \<and> rendererPages (fst (loadAll empty_env demo_loaded)) = []
   \<and> webRequestHandlers (fst (loadAll empty_env demo_loaded)) = [(VUndefined, demo_listener)]
   \<and> contextMenuContribs (fst (loadAll empty_env demo_loaded)) = [1]"
proof -
  have first: "fst (loadAll demo_env constructor) = demo_loaded"
    by (simp add: demo_loadAll)
  have second: "loadAll empty_env demo_loaded =
      (demo_loaded\<lparr>plugins := [], rendererPreloads := [], rendererPages := []\<rparr>, None)"
    by (simp add: loadAll_def empty_scan)
  show ?thesis
    by (simp add: first second) (simp add: demo_loaded_def)
qed

text \<open>
  C1 as amended: on every \<^verbatim>\<open>loadAll\<close> the record list, the preload list and the page
  registrations are rebuilt from scratch. What \<^verbatim>\<open>loadAll\<close> returns does not depend on
  what these three held before, whatever they held; what \<^verbatim>\<open>reload\<close> returns does not
  depend on the previous preloads and pages, and is a \<^verbatim>\<open>loadAll\<close> from a state where the
  three are empty (the previous records only decide which cached modules are dropped
  first); and when the scan ends without error the new records are exactly the
  candidates found on disk, in scan order.
\<close>

theorem load_rebuilds_records_preloads_pages:
  "loadAll env (w\<lparr>plugins := ps, rendererPreloads := rs, rendererPages := gs\<rparr>) = loadAll env w
   \<and> reload env plugin_id (w\<lparr>rendererPreloads := rs, rendererPages := gs\<rparr>) = reload env plugin_id w
   \<and> reload env plugin_id w =
       loadAll env (w\<lparr>plugins := [], rendererPreloads := [], rendererPages := [],
                      requireCache := invalidate env plugin_id w\<rparr>)
   \<and> (snd (loadAll env w) = None \<longrightarrow>
         map unloaded (plugins (fst (loadAll env w))) = candidates env)"
proof -
  have i: "invalidate env plugin_id (w\<lparr>rendererPreloads := rs, rendererPages := gs\<rparr>)
             = invalidate env plugin_id w"
    by (simp add: invalidate_def split: option.split)
  obtain w' err where run: "loadAll env w = (w', err)" by (cases "loadAll env w") auto
  from loadAll_summary(2) [OF run]
  have r: "snd (loadAll env w) = None \<longrightarrow>
         map unloaded (plugins (fst (loadAll env w))) = candidates env"
    by (simp add: run)
  have a: "loadAll env (w\<lparr>plugins := ps, rendererPreloads := rs, rendererPages := gs\<rparr>) = loadAll env w"
    by (simp add: loadAll_def)
  have b: "reload env plugin_id (w\<lparr>rendererPreloads := rs, rendererPages := gs\<rparr>) = reload env plugin_id w"
    by (simp add: loadAll_def reload_def i)
  have c: "reload env plugin_id w =
       loadAll env (w\<lparr>plugins := [], rendererPreloads := [], rendererPages := [],
                      requireCache := invalidate env plugin_id w\<rparr>)"
    by (simp add: loadAll_def reload_def)
  from a b c r show ?thesis by (intro conjI)
qed

theorem load_rebuilds_records_preloads_pages_witness:
  "loadAll demo_env demo_loaded
     = loadAll demo_env (demo_loaded\<lparr>plugins := [], rendererPreloads := [], rendererPages := []\<rparr>)
   \<and> snd (loadAll demo_env demo_loaded) = None
   \<and> map unloaded (plugins (fst (loadAll demo_env demo_loaded)))
       = map unloaded [demo_alpha, demo_crash, demo_beta, demo_gamma, demo_off]"
proof -
  let ?w = "demo_loaded\<lparr>plugins := [], rendererPreloads := [], rendererPages := []\<rparr>"
  have restored: "?w\<lparr>plugins := plugins demo_loaded, rendererPreloads := rendererPreloads demo_loaded,
                 rendererPages := rendererPages demo_loaded\<rparr> = demo_loaded"
    by simp
  from load_rebuilds_records_preloads_pages [where env = demo_env and w = ?w
        and ps = "plugins demo_loaded" and rs = "rendererPreloads demo_loaded"
        and gs = "rendererPages demo_loaded", THEN conjunct1]
  have same: "loadAll demo_env demo_loaded = loadAll demo_env ?w"
    unfolding restored .
  have wf: "\<forall>c \<in> set (candidates demo_env). well_formed c"
    using demo_well_formed by (simp add: list_all_iff)
  obtain w' err where run: "loadAll demo_env demo_loaded = (w', err)"
    by (cases "loadAll demo_env demo_loaded") auto
  from loadAll_summary(3) [OF run wf] run have ok: "snd (loadAll demo_env demo_loaded) = None"
    by simp
  from load_rebuilds_records_preloads_pages [where env = demo_env and w = demo_loaded,
      THEN conjunct2, THEN conjunct2, THEN conjunct2, rule_format, OF ok]
  have "map unloaded (plugins (fst (loadAll demo_env demo_loaded))) = candidates demo_env" .
  then have recs: "map unloaded (plugins (fst (loadAll demo_env demo_loaded)))
       = map unloaded [demo_alpha, demo_crash, demo_beta, demo_gamma, demo_off]"
    by (simp add: demo_candidates)
  from same ok recs show ?thesis by (intro conjI)
qed


subsection \<open>C2: the authors of a manifest\<close>




subsection \<open>C3: a module handle only after a successful load\<close>




subsection \<open>C4: a throwing entry point does not stop the others\<close>




subsection \<open>C5: the same id under both roots\<close>




subsection \<open>C6: \<^verbatim>\<open>setEnabled\<close> fails loudly\<close>




subsection \<open>C7: web-request listeners\<close>

text \<open>
  Claim C7. \<^verbatim>\<open>applyWebRequestHandlers\<close> attaches, in registration order, one hook per
  collected entry (those whose \<^verbatim>\<open>onBeforeRequest\<close> call itself throws apart). For every
  listener and every request, the hook calls the callback exactly once: with the
  listener's result when that is an object or an array, with \<^verbatim>\<open>{cancel: false}\<close> when the
  listener returns anything else, and with \<^verbatim>\<open>{cancel: false}\<close>, after logging, when the
  listener throws.
\<close>

theorem web_request_listener_isolated:
  "(\<exists>w'. applyWebRequestHandlers w (Some ses) =
       (w', Some (ses\<lparr>hooks := hooks ses @
                     map (\<lambda>h. (js_or (fst h) (VObj []), hook (snd h)))
                       (filter (\<lambda>h. \<not> rejects ses (js_or (fst h) (VObj [])))
                          (webRequestHandlers w))\<rparr>)))
   \<and> (\<forall>kvs. listener details = Returns (VObj kvs) \<longrightarrow> fst (hook listener details) = [VObj kvs])
   \<and> (\<forall>xs. listener details = Returns (VArr xs) \<longrightarrow> fst (hook listener details) = [VArr xs])
   \<and> (\<forall>v. listener details = Returns v \<longrightarrow> (\<forall>kvs. v \<noteq> VObj kvs) \<longrightarrow> (\<forall>xs. v \<noteq> VArr xs) \<longrightarrow>
          fst (hook listener details) = [no_cancel])
   \<and> (\<forall>e. listener details = Throws e \<longrightarrow>
          hook listener details = ([no_cancel], [WebRequestHandlerError e]))
   \<and> length (fst (hook listener details)) = 1"
proof -
  have attach: "\<exists>w'. applyWebRequestHandlers w (Some ses) =
       (w', Some (ses\<lparr>hooks := hooks ses @
                     map (\<lambda>h. (js_or (fst h) (VObj []), hook (snd h)))
                       (filter (\<lambda>h. \<not> rejects ses (js_or (fst h) (VObj [])))
                          (webRequestHandlers w))\<rparr>))"
    by (simp add: applyWebRequestHandlers_def fold_attach)
  have one: "length (fst (hook listener details)) = 1"
    by (simp add: hook_def split: outcome.split)
  from attach one hook_cases [of listener details] show ?thesis
    by simp
qed

theorem web_request_listener_isolated_witness:
  "demo_listener (VStr ''ads'') = Returns (VObj [(''cancel'', VBool True)])
   \<and> fst (hook demo_listener (VStr ''ads'')) = [VObj [(''cancel'', VBool True)]]
   \<and> demo_listener (VStr ''page'') = Returns VUndefined
   \<and> fst (hook demo_listener (VStr ''page'')) = [VObj [(''cancel'', VBool False)]]
   \<and> failing_listener (VStr ''page'') = Throws (Thrown 3)
   \<and> hook failing_listener (VStr ''page'')
       = ([VObj [(''cancel'', VBool False)]], [WebRequestHandlerError (Thrown 3)])"
proof -
  have r1: "demo_listener (VStr ''ads'') = Returns (VObj [(''cancel'', VBool True)])"
    by (simp add: demo_listener_def)
  have r2: "demo_listener (VStr ''page'') = Returns VUndefined"
    by (simp add: demo_listener_def)
  have r3: "failing_listener (VStr ''page'') = Throws (Thrown 3)"
    by (simp add: failing_listener_def)
  have a: "fst (hook demo_listener (VStr ''ads'')) = [VObj [(''cancel'', VBool True)]]"
    using web_request_listener_isolated [where listener = demo_listener
        and details = "VStr ''ads''", THEN conjunct2, THEN conjunct1, rule_format, OF r1] .
  have "fst (hook demo_listener (VStr ''page'')) = [no_cancel]"
    using web_request_listener_isolated [where listener = demo_listener
        and details = "VStr ''page''",
        THEN conjunct2, THEN conjunct2, THEN conjunct2, THEN conjunct1, rule_format, OF r2]
    by simp
  then have b: "fst (hook demo_listener (VStr ''page'')) = [VObj [(''cancel'', VBool False)]]"
    by (simp add: no_cancel_def)
  have "hook failing_listener (VStr ''page'') = ([no_cancel], [WebRequestHandlerError (Thrown 3)])"
    using web_request_listener_isolated [where listener = failing_listener
        and details = "VStr ''page''",
        THEN conjunct2, THEN conjunct2, THEN conjunct2, THEN conjunct2, THEN conjunct1,
        rule_format, OF r3] .
  then have c: "hook failing_listener (VStr ''page'')
       = ([VObj [(''cancel'', VBool False)]], [WebRequestHandlerError (Thrown 3)])"
    by (simp add: no_cancel_def)
  show ?thesis
    using r1 a r2 b r3 c by (intro conjI)
qed

subsection \<open>C8: what \<^verbatim>\<open>reload\<close> invalidates\<close>



subsection \<open>C9: discovery\<close>

text \<open>
  Claim C9. \<^verbatim>\<open>discoverPlugins\<close> returns one descriptor for each directory, under either
  root, whose manifest reads and parses (to something other than \<^verbatim>\<open>null\<close>), in scan
  order: an entry with a missing or malformed manifest is left out and the scan goes on.
  A manifest with \<^verbatim>\<open>enabled: false\<close> is listed, with \<^verbatim>\<open>enabled\<close> false. The result is the
  same whatever the module files would do when loaded and however \<^verbatim>\<open>require\<close> resolves:
  discovery reads neither (and, taking no state, touches neither the module cache nor
  the activation trace).
\<close>

theorem discover_lists_disabled_without_loading:
  "map d_dir (discoverPlugins env) =
     concat (map (\<lambda>root. case readdirSync env root of
                            None \<Rightarrow> []
                          | Some entries \<Rightarrow>
                              map (\<lambda>e. pathJoin env root (fst e))
                                (filter (discoverable env root) entries))
               (getPluginDirs env))
   \<and> (\<forall>root \<in> set (getPluginDirs env). \<forall>entries name kvs.
         readdirSync env root = Some entries \<longrightarrow> (name, True) \<in> set entries \<longrightarrow>
         readManifest env (manifest_path env root name) = Some (VObj kvs) \<longrightarrow>
         map_of kvs ''enabled'' = Some (VBool False) \<longrightarrow>
         (\<exists>d \<in> set (discoverPlugins env). d_dir d = pathJoin env root name \<and> \<not> d_enabled d))
   \<and> discoverPlugins (env\<lparr>resolve := rs, loadFile := lf\<rparr>) = discoverPlugins env"
proof (intro conjI ballI allI impI)
  have "map d_dir (discoverPlugins env) =
      concat (map (\<lambda>root. map d_dir (discovered_in env root)) (getPluginDirs env))"
    by (simp add: discoverPlugins_def discover_roots_conv map_concat comp_def)
  then show "map d_dir (discoverPlugins env) =
     concat (map (\<lambda>root. case readdirSync env root of
                            None \<Rightarrow> []
                          | Some entries \<Rightarrow>
                              map (\<lambda>e. pathJoin env root (fst e))
                                (filter (discoverable env root) entries))
               (getPluginDirs env))"
    by (simp add: discovered_in_dirs)
next
  fix root entries name kvs
  assume root: "root \<in> set (getPluginDirs env)"
    and rd: "readdirSync env root = Some entries"
    and ent: "(name, True) \<in> set entries"
    and mf: "readManifest env (manifest_path env root name) = Some (VObj kvs)"
    and off: "map_of kvs ''enabled'' = Some (VBool False)"
  obtain d where d: "describe (pathJoin env root name) name (Some (VObj kvs)) = Some d"
    and dir: "d_dir d = pathJoin env root name" and en: "\<not> d_enabled d"
    using off by (simp add: describe_def)
  from d mf have "d \<in> set (descriptor_of env root (name, True))"
    by (simp add: descriptor_of_def)
  with ent have "d \<in> set (concat (map (descriptor_of env root) entries))"
    by auto
  with rd have "d \<in> set (discovered_in env root)"
    by (simp add: discovered_in_def)
  with root have "d \<in> set (discoverPlugins env)"
    by (auto simp: discoverPlugins_def discover_roots_conv)
  with dir en show "\<exists>d \<in> set (discoverPlugins env). d_dir d = pathJoin env root name \<and> \<not> d_enabled d"
    by blast
next
  have e: "discover_entries (env\<lparr>resolve := rs, loadFile := lf\<rparr>) root ents out
      = discover_entries env root ents out" for root ents out
    by (induction ents arbitrary: out) (simp_all add: Let_def split: option.split)
  have r: "discover_roots (env\<lparr>resolve := rs, loadFile := lf\<rparr>) roots out
      = discover_roots env roots out" for roots out
    by (induction roots arbitrary: out) (simp_all add: e split: option.split)
  have g: "getPluginDirs (env\<lparr>resolve := rs, loadFile := lf\<rparr>) = getPluginDirs env"
    by (simp add: getPluginDirs_def)
  show "discoverPlugins (env\<lparr>resolve := rs, loadFile := lf\<rparr>) = discoverPlugins env"
    by (simp only: discoverPlugins_def r g)
qed

theorem discover_lists_disabled_without_loading_witness:
  "''/user/plugins'' \<in> set (getPluginDirs demo_env)
   \<and> readdirSync demo_env ''/user/plugins'' = Some [(''beta'', True), (''gamma'', True), (''off'', True)]
   \<and> (''off'', True) \<in> set [(''beta'', True), (''gamma'', True), (''off'', True)]
   \<and> readManifest demo_env (manifest_path demo_env ''/user/plugins'' ''off'')
       = Some (VObj [(''enabled'', VBool False), (''main'', VStr ''index.js'')])
   \<and> map_of [(''enabled'', VBool False), (''main'', VStr ''index.js'')] ''enabled'' = Some (VBool False)
   \<and> (\<exists>d \<in> set (discoverPlugins demo_env). d_dir d = ''/user/plugins/off'' \<and> \<not> d_enabled d)
   \<and> map d_dir (discoverPlugins demo_env)
       = [''/app/plugins/alpha'', ''/app/plugins/crash'', ''/user/plugins/beta'',
          ''/user/plugins/gamma'', ''/user/plugins/off'']"
proof -
  have root: "''/user/plugins'' \<in> set (getPluginDirs demo_env)"
    by (simp add: getPluginDirs_def demo_env_def)
  have rd: "readdirSync demo_env ''/user/plugins'' = Some [(''beta'', True), (''gamma'', True), (''off'', True)]"
    by (simp add: demo_env_def)
  have ent: "(''off'', True) \<in> set [(''beta'', True), (''gamma'', True), (''off'', True)]"
    by simp
  have mf: "readManifest demo_env (manifest_path demo_env ''/user/plugins'' ''off'')
       = Some (VObj [(''enabled'', VBool False), (''main'', VStr ''index.js'')])"
    by (simp add: manifest_path_def demo_env_def)
  have off: "map_of [(''enabled'', VBool False), (''main'', VStr ''index.js'')] ''enabled'' = Some (VBool False)"
    by simp
  have j: "pathJoin demo_env ''/user/plugins'' ''off'' = ''/user/plugins/off''"
    by (simp add: demo_env_def)
  note T = discover_lists_disabled_without_loading [where env = demo_env]
  from T [THEN conjunct2, THEN conjunct1, rule_format, OF root rd ent mf off]
  have a: "\<exists>d \<in> set (discoverPlugins demo_env). d_dir d = ''/user/plugins/off'' \<and> \<not> d_enabled d"
    by (simp add: j)
  have b: "map d_dir (discoverPlugins demo_env)
       = [''/app/plugins/alpha'', ''/app/plugins/crash'', ''/user/plugins/beta'',
          ''/user/plugins/gamma'', ''/user/plugins/off'']"
    unfolding T [THEN conjunct1]
    by (simp add: getPluginDirs_def discoverable_def manifest_path_def demo_env_def)
  show ?thesis
    using root rd ent mf off a b by (intro conjI)
qed

subsection \<open>C10: the preload list has no duplicates\<close>

text \<open>
  Claim C10. In every state \<^verbatim>\<open>getRendererPreloads\<close> returns a list without duplicates
  that holds exactly the paths of the internal list, however often a path was appended
  there.
\<close>

theorem renderer_preloads_unique:
  "distinct (getRendererPreloads w) \<and> set (getRendererPreloads w) = set (rendererPreloads w)"
  using set_insert_fold [of "[]" "rendererPreloads w"]
  by (simp add: getRendererPreloads_def array_from_set_def)

theorem renderer_preloads_unique_witness:
  "rendererPreloads (constructor\<lparr>rendererPreloads := [''/a/p.js'', ''/b/q.js'', ''/a/p.js'']\<rparr>)
     = [''/a/p.js'', ''/b/q.js'', ''/a/p.js'']
   \<and> distinct (getRendererPreloads
        (constructor\<lparr>rendererPreloads := [''/a/p.js'', ''/b/q.js'', ''/a/p.js'']\<rparr>))
   \<and> set (getRendererPreloads
        (constructor\<lparr>rendererPreloads := [''/a/p.js'', ''/b/q.js'', ''/a/p.js'']\<rparr>))
       = {''/a/p.js'', ''/b/q.js''}"
  using renderer_preloads_unique
    [of "constructor\<lparr>rendererPreloads := [''/a/p.js'', ''/b/q.js'', ''/a/p.js'']\<rparr>"]
  by (simp add: insert_commute)

end
